theory Spec2Isabelle
  imports Main "HOL-Library.Sublist"
begin

text \<open>
  The package recipes \<open>LLVM\<close> and \<open>LLVMBinDist\<close> (module
  \<open>infra/packages/llvm/__init__.py\<close>) and \<open>LibUnwind\<close> and \<open>Gperftools\<close> (module
  \<open>infra/packages/gperftools.py\<close>): their constructors and identifiers, the lifecycle
  operations \<open>fetch\<close>, \<open>build\<close> and \<open>install\<close> with the probes \<open>is_fetched\<close>,
  \<open>is_built\<close> and \<open>is_installed\<close>, and \<open>configure\<close>. An operation is a function on an
  explicit world state (file system, working directory, build context, log, and the
  history of external calls) that returns its result or the exception it raises.
\<close>

section \<open>Python strings\<close>

text \<open>
  Python \<open>str\<close> values are modelled as HOL strings whose characters are the code points
  below 256. The helpers below are the string builtins the package recipes call.
\<close>

definition py_isspace :: "char \<Rightarrow> bool" where
  "py_isspace c \<longleftrightarrow> c \<in> set [CHR 0x09, CHR 0x0A, CHR 0x0B, CHR 0x0C, CHR 0x0D,
     CHR 0x1C, CHR 0x1D, CHR 0x1E, CHR 0x1F, CHR 0x20, CHR 0x85, CHR 0xA0]"

text \<open>\<open>s.strip()\<close>: leading and trailing whitespace removed.\<close>

definition py_strip :: "string \<Rightarrow> string" where
  "py_strip s = rev (dropWhile py_isspace (rev (dropWhile py_isspace s)))"

text \<open>\<open>s.split(sep)\<close> for a one-character separator; the result is never empty.\<close>

fun py_split :: "char \<Rightarrow> string \<Rightarrow> string list" where
  "py_split sep [] = [[]]"
| "py_split sep (c # cs) =
     (if c = sep then [] # py_split sep cs
      else (case py_split sep cs of [] \<Rightarrow> [[c]] | x # xs \<Rightarrow> (c # x) # xs))"

definition digit_val :: "char \<Rightarrow> nat option" where
  "digit_val c = map_of (zip ''0123456789'' [0, 1, 2, 3, 4, 5, 6, 7, 8, 9]) c"

fun parse_digits :: "nat \<Rightarrow> string \<Rightarrow> nat option" where
  "parse_digits acc [] = Some acc"
| "parse_digits acc (c # cs) =
     (if c = CHR ''_'' then
        (case cs of
           [] \<Rightarrow> None
         | d # _ \<Rightarrow> (if digit_val d = None then None else parse_digits acc cs))
      else (case digit_val c of
              None \<Rightarrow> None
            | Some v \<Rightarrow> parse_digits (10 * acc + v) cs))"

text \<open>
  \<open>int(s)\<close> on a string: surrounding whitespace is ignored, one sign is allowed, then
  decimal digits with single underscores between them. \<open>None\<close> stands for the
  \<open>ValueError\<close> Python raises on anything else.
\<close>

definition py_int :: "string \<Rightarrow> int option" where
  "py_int s =
     (let t = py_strip s;
          neg = (case t of [] \<Rightarrow> False | c # _ \<Rightarrow> c = CHR ''-'');
          body = (case t of [] \<Rightarrow> []
                  | c # r \<Rightarrow> if c = CHR ''-'' \<or> c = CHR ''+'' then r else t)
      in case body of
           [] \<Rightarrow> None
         | d # _ \<Rightarrow>
             (if digit_val d = None then None
              else (case parse_digits 0 body of
                      None \<Rightarrow> None
                    | Some n \<Rightarrow> Some (if neg then - int n else int n))))"

text \<open>Formatting an integer inside an f-string: its decimal digits.\<close>

fun str_nat :: "nat \<Rightarrow> string" where
  "str_nat n =
     (if n < 10 then [''0123456789'' ! n]
      else str_nat (n div 10) @ [''0123456789'' ! (n mod 10)])"

declare str_nat.simps [simp del]

definition str_int :: "int \<Rightarrow> string" where
  "str_int i = (if i < 0 then CHR ''-'' # str_nat (nat (- i)) else str_nat (nat i))"

text \<open>\<open>sep.join(xs)\<close>.\<close>

fun py_join :: "string \<Rightarrow> string list \<Rightarrow> string" where
  "py_join sep [] = []"
| "py_join sep [x] = x"
| "py_join sep (x # y # ys) = x @ sep @ py_join sep (y # ys)"

text \<open>
  \<open>os.path.dirname(p)\<close>: everything up to the last slash, with the trailing slashes
  of that head removed unless the head consists of slashes only.
\<close>

definition py_dirname :: "string \<Rightarrow> string" where
  "py_dirname p =
     (let head = rev (dropWhile (\<lambda>c. c \<noteq> CHR ''/'') (rev p))
      in if head \<noteq> [] \<and> \<not> list_all (\<lambda>c. c = CHR ''/'') head
         then rev (dropWhile (\<lambda>c. c = CHR ''/'') (rev head))
         else head)"

section \<open>The build context\<close>

text \<open>
  The fields of \<open>Context\<close> that the recipes read and write: the toolchain program names,
  the three flag lists and the job count. The log sink is kept in the world state below.
\<close>

record build_context =
  cc :: string
  cxx :: string
  ar :: string
  nm :: string
  ranlib :: string
  cflags :: "string list"
  cxxflags :: "string list"
  ldflags :: "string list"
  jobs :: int

section \<open>Package instances\<close>

text \<open>
  A patch reference of \<open>LLVM\<close> is a string, or a pair of a directory and a string
  (\<open>isinstance(path, tuple)\<close> in \<open>LLVM.build\<close>).
\<close>

datatype patch = Name string | InDir string string

text \<open>
  Python lists are objects: \<open>LLVM.__init__\<close> stores the list it is given and appends to
  it in place. The patch lists of \<open>LLVM\<close> instances therefore live in a store of list
  objects, and an instance holds the address of its list. Address \<open>default_patches\<close>
  is the list object created once for the default value \<open>patches=[]\<close> of
  \<open>LLVM.__init__\<close>. The lists that the two package modules never mutate
  (\<open>build_flags\<close>, and the \<open>patches\<close> of \<open>LibUnwind\<close> and \<open>Gperftools\<close>, which
  are annotated \<open>list[str]\<close>) are kept as values.
\<close>

type_synonym addr = nat
type_synonym list_store = "addr \<Rightarrow> patch list"

definition default_patches :: addr where
  "default_patches = 0"

record LLVM =
  version :: string
  compiler_rt :: bool
  lld :: bool
  patches :: addr
  build_flags :: "string list"
  commit :: "string option"

record LLVMBinDist =
  version :: string
  target :: string
  bin_suffix :: string

record LibUnwind =
  version :: string
  patches :: "string list"

record Gperftools =
  commit :: string
  libunwind :: LibUnwind
  patches :: "string list"

text \<open>
  \<open>LLVM.__init__(version, compiler_rt, commit=None, lld=False, patches=[], build_flags=[])\<close>.
  The argument \<open>patches_arg\<close> is \<open>None\<close> when the caller omits \<open>patches\<close> (the default
  list object is used) and \<open>Some r\<close> when the caller passes the list at address \<open>r\<close>.
\<close>

definition LLVM_init ::
  "list_store \<Rightarrow> string \<Rightarrow> bool \<Rightarrow> string option \<Rightarrow> bool \<Rightarrow> addr option \<Rightarrow> string list
     \<Rightarrow> LLVM \<times> list_store" where
  "LLVM_init h version_arg compiler_rt_arg commit_arg lld_arg patches_arg build_flags_arg =
     (let r = (case patches_arg of None \<Rightarrow> default_patches | Some a \<Rightarrow> a);
          self = \<lparr>LLVM.version = version_arg, compiler_rt = compiler_rt_arg, lld = lld_arg,
                  LLVM.patches = r, build_flags = build_flags_arg,
                  LLVM.commit = commit_arg\<rparr>
      in if compiler_rt_arg \<and> version_arg = ''4.0.0''
         then (self, h(r := h r @ [Name ''compiler-rt-typefix'']))
         else (self, h))"

definition LibUnwind_init :: "string \<Rightarrow> string list \<Rightarrow> LibUnwind" where
  "LibUnwind_init version_arg patches_arg =
     \<lparr>LibUnwind.version = version_arg, LibUnwind.patches = patches_arg\<rparr>"

text \<open>
  \<open>Gperftools.__init__(commit, libunwind_version="1.4-rc1", patches=[])\<close>; the inner
  \<open>LibUnwind(libunwind_version)\<close> gets the empty default patch list.
\<close>

definition Gperftools_init :: "string \<Rightarrow> string \<Rightarrow> string list \<Rightarrow> Gperftools" where
  "Gperftools_init commit_arg libunwind_version patches_arg =
     \<lparr>Gperftools.commit = commit_arg, libunwind = LibUnwind_init libunwind_version [],
      Gperftools.patches = patches_arg\<rparr>"

subsection \<open>Identifiers\<close>

definition LLVM_ident :: "LLVM \<Rightarrow> string" where
  "LLVM_ident self =
     (let suffix = (if lld self then ''-lld'' else '''')
      in ''llvm-'' @ LLVM.version self @ suffix)"

definition LLVMBinDist_ident :: "LLVMBinDist \<Rightarrow> string" where
  "LLVMBinDist_ident self = ''llvmbin-'' @ LLVMBinDist.version self"

definition LibUnwind_ident :: "LibUnwind \<Rightarrow> string" where
  "LibUnwind_ident self = ''libunwind-'' @ LibUnwind.version self"

definition Gperftools_ident :: "Gperftools \<Rightarrow> string" where
  "Gperftools_ident self = ''gperftools-'' @ Gperftools.commit self"

section \<open>The environment of a run\<close>

text \<open>
  What the two package modules take from the rest of the system is a parameter of the
  model, gathered in one record:
  \<^item> \<open>run_fx\<close>, \<open>download_fx\<close> and \<open>patch_fx\<close> give what an external process, a
    download and the patch-application primitive do to the file system (and what they
    return) when called in a given working directory;
  \<^item> \<open>pkg_path ident args\<close> is \<open>Package.path(ctx, *args)\<close> of the package with that
    identifier;
  \<^item> \<open>llvm_module_dir\<close> and \<open>packages_module_dir\<close> are
    \<open>os.path.dirname(os.path.abspath(__file__))\<close> in \<open>llvm/__init__.py\<close> and in
    \<open>gperftools.py\<close>;
  \<^item> \<open>binutils_ident\<close> is the identifier of \<open>BinUtils("2.38", gold=True)\<close>.
\<close>

type_synonym path = "string list"

datatype node = File | Dir | Link string

text \<open>
  A file system is a list of entries, each a path (absolute, as its list of components)
  with the node found there; the first entry for a path is the one that counts.
\<close>

type_synonym fs = "(path \<times> node) list"

datatype cmd = Argv "string list" | Shell string

record proc =
  returncode :: int
  stdout :: string

record env =
  run_fx :: "cmd \<Rightarrow> path \<Rightarrow> fs \<Rightarrow> proc option \<times> fs"
  download_fx :: "string \<Rightarrow> path \<Rightarrow> fs \<Rightarrow> fs option"
  patch_fx :: "string \<Rightarrow> nat \<Rightarrow> path \<Rightarrow> fs \<Rightarrow> (bool \<times> fs) option"
  pkg_path :: "string \<Rightarrow> string list \<Rightarrow> string"
  llvm_module_dir :: string
  packages_module_dir :: string
  binutils_ident :: string

section \<open>The configure operations\<close>

definition LLVM_configure :: "build_context \<Rightarrow> build_context" where
  "LLVM_configure c =
     c\<lparr>cc := ''clang'', cxx := ''clang++'', ar := ''llvm-ar'', nm := ''llvm-nm'',
       ranlib := ''llvm-ranlib'', cflags := [], cxxflags := [], ldflags := []\<rparr>"

definition LibUnwind_configure :: "env \<Rightarrow> LibUnwind \<Rightarrow> build_context \<Rightarrow> build_context" where
  "LibUnwind_configure e self c =
     c\<lparr>ldflags := ldflags c @
          [''-L'' @ pkg_path e (LibUnwind_ident self) [''install/lib''], ''-lunwind'']\<rparr>"

definition Gperftools_configure :: "env \<Rightarrow> Gperftools \<Rightarrow> build_context \<Rightarrow> build_context" where
  "Gperftools_configure e self c =
     (let c1 = LibUnwind_configure e (libunwind self) c;
          fl = map (\<lambda>fn. ''-fno-builtin-'' @ fn) [''malloc'', ''calloc'', ''realloc'', ''free'']
               @ [''-I'', pkg_path e (Gperftools_ident self) [''install/include/gperftools'']];
          c2 = c1\<lparr>cflags := cflags c1 @ fl\<rparr>;
          c3 = c2\<lparr>cxxflags := cxxflags c2 @ fl\<rparr>
      in c3\<lparr>ldflags := ldflags c3 @
            [''-L'' @ pkg_path e (Gperftools_ident self) [''install/lib''],
             ''-ltcmalloc'', ''-lpthread'']\<rparr>)"

section \<open>World state and effects\<close>

text \<open>
  The state an operation runs in: the file system, the current working directory of the
  process, the shared build context, the store of list objects, and two histories: the
  external primitives called so far (with their arguments and the working directory of
  the call) and the messages sent to the log sink.

  Paths are resolved lexically: \<open>..\<close> removes the last component, and a symbolic
  link is never followed as a directory (\<open>os.chdir\<close> on a link fails). The root
  directory always exists.
\<close>

datatype level = Debug | Warning

datatype event =
    Download string path
  | Run cmd path bool
  | ApplyPatch string nat path

datatype error = FatalError | OSError | ShutilError | ValueError

record world =
  files :: fs
  cwd :: path
  ctx :: build_context
  store :: list_store
  trace :: "event list"
  logs :: "(level \<times> string) list"

text \<open>
  An operation takes the world and returns the changed world together with its result or
  the exception it raised. An exception keeps the changes made before it.
\<close>

type_synonym 'a io = "world \<Rightarrow> (error + 'a) \<times> world"

definition ret :: "'a \<Rightarrow> 'a io" where
  "ret x w = (Inr x, w)"

definition raise :: "error \<Rightarrow> 'a io" where
  "raise err w = (Inl err, w)"

definition bind :: "'a io \<Rightarrow> ('a \<Rightarrow> 'b io) \<Rightarrow> 'b io" where
  "bind m f w = (case m w of (Inl err, w') \<Rightarrow> (Inl err, w') | (Inr x, w') \<Rightarrow> f x w')"

definition seq :: "unit io \<Rightarrow> 'a io \<Rightarrow> 'a io" where
  "seq m n = bind m (\<lambda>_. n)"

fun block :: "unit io list \<Rightarrow> unit io" where
  "block [] = ret ()"
| "block (m # ms) = seq m (block ms)"

definition for_each :: "'a list \<Rightarrow> ('a \<Rightarrow> unit io) \<Rightarrow> unit io" where
  "for_each xs body = block (map body xs)"

definition if_do :: "bool \<Rightarrow> unit io \<Rightarrow> unit io" where
  "if_do b m = (if b then m else ret ())"

definition reads :: "(world \<Rightarrow> 'a) \<Rightarrow> 'a io" where
  "reads f w = (Inr (f w), w)"

subsection \<open>Paths\<close>

definition push_component :: "path \<Rightarrow> string \<Rightarrow> path" where
  "push_component p c =
     (if c = [] \<or> c = ''.'' then p else if c = ''..'' then butlast p else p @ [c])"

definition resolve :: "path \<Rightarrow> string \<Rightarrow> path" where
  "resolve d s =
     foldl push_component
       (case s of [] \<Rightarrow> d | c # _ \<Rightarrow> if c = CHR ''/'' then [] else d)
       (py_split (CHR ''/'') s)"

definition show_path :: "path \<Rightarrow> string" where
  "show_path p = (if p = [] then ''/'' else concat (map (\<lambda>c. CHR ''/'' # c) p))"

definition node_at :: "fs \<Rightarrow> path \<Rightarrow> node option" where
  "node_at f p = (if p = [] then Some Dir else map_of f p)"

text \<open>
  \<open>os.path.exists\<close>: false for the empty string and for a link whose target is missing.
\<close>

definition path_exists :: "fs \<Rightarrow> path \<Rightarrow> string \<Rightarrow> bool" where
  "path_exists f d s \<longleftrightarrow>
     s \<noteq> [] \<and>
     (let p = resolve d s
      in case node_at f p of
           None \<Rightarrow> False
         | Some (Link t) \<Rightarrow> t \<noteq> [] \<and> node_at f (resolve (butlast p) t) \<noteq> None
         | Some _ \<Rightarrow> True)"

text \<open>
  Renaming the node at \<open>a\<close> to \<open>b\<close>: every entry at or below \<open>a\<close> moves to the same
  place at or below \<open>b\<close>, and what was at or below \<open>b\<close> is replaced.
\<close>

definition rename_tree :: "fs \<Rightarrow> path \<Rightarrow> path \<Rightarrow> fs" where
  "rename_tree f a b =
     map (\<lambda>(k, v). (b @ drop (length a) k, v)) (filter (\<lambda>(k, v). prefix a k) f)
     @ filter (\<lambda>(k, v). \<not> prefix a k \<and> \<not> prefix b k) f"

subsection \<open>The \<open>os\<close> and \<open>shutil\<close> functions\<close>

definition os_path_exists :: "string \<Rightarrow> bool io" where
  "os_path_exists s = reads (\<lambda>w. path_exists (files w) (cwd w) s)"

definition os_getcwd :: "string io" where
  "os_getcwd = reads (\<lambda>w. show_path (cwd w))"

definition os_chdir :: "string \<Rightarrow> unit io" where
  "os_chdir s w =
     (if s = [] then (Inl OSError, w)
      else (case node_at (files w) (resolve (cwd w) s) of
              Some Dir \<Rightarrow> (Inr (), w\<lparr>cwd := resolve (cwd w) s\<rparr>)
            | _ \<Rightarrow> (Inl OSError, w)))"

text \<open>\<open>os.makedirs(s, exist_ok=True)\<close>: creates the directory and its missing ancestors.\<close>

definition os_makedirs :: "string \<Rightarrow> unit io" where
  "os_makedirs s w =
     (let p = resolve (cwd w) s; f = files w
      in if s = [] then (Inl OSError, w)
         else if list_ex (\<lambda>q. node_at f q \<noteq> None \<and> node_at f q \<noteq> Some Dir) (prefixes p)
         then (Inl OSError, w)
         else (Inr (), w\<lparr>files := map (\<lambda>q. (q, Dir))
                                      (filter (\<lambda>q. node_at f q = None) (prefixes p)) @ f\<rparr>))"

text \<open>
  \<open>shutil.move(src, dst)\<close>: a destination that is an existing directory receives the
  source under its own name (and must not hold that name yet); otherwise the source is
  renamed to the destination, which a directory cannot do onto a file. A directory
  cannot be moved into itself, and the parent of the final destination must exist.
\<close>

definition shutil_move :: "string \<Rightarrow> string \<Rightarrow> unit io" where
  "shutil_move src dst w =
     (let f = files w; a = resolve (cwd w) src; d = resolve (cwd w) dst;
          into = (dst \<noteq> [] \<and> node_at f d = Some Dir);
          b = (if into then d @ [last a] else d)
      in if src = [] \<or> dst = [] \<or> a = [] \<or> map_of f a = None then (Inl OSError, w)
         else if into \<and> map_of f b \<noteq> None then (Inl ShutilError, w)
         else if prefix a b then (Inl ShutilError, w)
         else if b = [] \<or> node_at f (butlast b) \<noteq> Some Dir then (Inl OSError, w)
         else if map_of f a = Some Dir \<and> map_of f b \<noteq> None then (Inl OSError, w)
         else (Inr (), w\<lparr>files := rename_tree f a b\<rparr>))"

definition os_remove :: "string \<Rightarrow> unit io" where
  "os_remove s w =
     (let p = resolve (cwd w) s
      in if s = [] \<or> p = [] \<or> map_of (files w) p = None \<or> map_of (files w) p = Some Dir
         then (Inl OSError, w)
         else (Inr (), w\<lparr>files := filter (\<lambda>(k, v). k \<noteq> p) (files w)\<rparr>))"

definition os_symlink :: "string \<Rightarrow> string \<Rightarrow> unit io" where
  "os_symlink src tgt w =
     (let p = resolve (cwd w) tgt
      in if tgt = [] \<or> p = [] \<or> map_of (files w) p \<noteq> None
            \<or> node_at (files w) (butlast p) \<noteq> Some Dir then (Inl OSError, w)
         else (Inr (), w\<lparr>files := (p, Link src) # files w\<rparr>))"

subsection \<open>The log sink\<close>

definition log_debug :: "string \<Rightarrow> unit io" where
  "log_debug msg w = (Inr (), w\<lparr>logs := logs w @ [(Debug, msg)]\<rparr>)"

definition log_warning :: "string \<Rightarrow> unit io" where
  "log_warning msg w = (Inr (), w\<lparr>logs := logs w @ [(Warning, msg)]\<rparr>)"

subsection \<open>The external primitives\<close>

text \<open>
  Modelled from the spec: \<open>util.run\<close>, the process-invocation primitive, whose module
  is not among the sources. It executes the command in the current working directory and
  returns the exit status and the captured standard output; a process that exits
  non-zero (or cannot be started, \<open>None\<close>) is fatal unless the call allows errors. The
  call is recorded in the history; what the process does to the file system is the
  environment's \<open>run_fx\<close>.
\<close>

definition run :: "env \<Rightarrow> cmd \<Rightarrow> bool \<Rightarrow> proc option io" where
  "run e c allow_error w =
     (let (r, f) = run_fx e c (cwd w) (files w);
          w' = w\<lparr>files := f, trace := trace w @ [Run c (cwd w) allow_error]\<rparr>
      in case r of
           None \<Rightarrow> if allow_error then (Inr None, w') else (Inl FatalError, w')
         | Some p \<Rightarrow>
             if returncode p \<noteq> 0 \<and> \<not> allow_error then (Inl FatalError, w')
             else (Inr (Some p), w'))"

definition run_cmd :: "env \<Rightarrow> cmd \<Rightarrow> unit io" where
  "run_cmd e c = bind (run e c False) (\<lambda>_. ret ())"

text \<open>
  Modelled from the spec: \<open>util.download\<close>, whose module is not among the sources. It
  retrieves the resource into the current working directory; failure is fatal.
\<close>

definition download :: "env \<Rightarrow> string \<Rightarrow> unit io" where
  "download e url w =
     (let w' = w\<lparr>trace := trace w @ [Download url (cwd w)]\<rparr>
      in case download_fx e url (cwd w) (files w) of
           None \<Rightarrow> (Inl FatalError, w')
         | Some f \<Rightarrow> (Inr (), w'\<lparr>files := f\<rparr>))"

text \<open>
  Modelled from the spec: \<open>util.apply_patch\<close>, whose module is not among the sources.
  It applies the patch at the given strip level in the current working directory unless
  its changes are already present, and returns whether it modified anything; \<open>None\<close>
  from the environment is a patch that cannot be applied, which is fatal.
\<close>

definition apply_patch :: "env \<Rightarrow> string \<Rightarrow> nat \<Rightarrow> bool io" where
  "apply_patch e p strip w =
     (let w' = w\<lparr>trace := trace w @ [ApplyPatch p strip (cwd w)]\<rparr>
      in case patch_fx e p strip (cwd w) (files w) of
           None \<Rightarrow> (Inl FatalError, w')
         | Some (applied, f) \<Rightarrow> (Inr applied, w'\<lparr>files := f\<rparr>))"

text \<open>
  Modelled from the spec: \<open>Package.goto_rootdir\<close>, whose module is not among the
  sources. It positions the working directory at the package's own directory, creating
  it if absent.
\<close>

definition goto_rootdir :: "env \<Rightarrow> string \<Rightarrow> unit io" where
  "goto_rootdir e pkg_ident =
     seq (os_makedirs (pkg_path e pkg_ident [])) (os_chdir (pkg_path e pkg_ident []))"

section \<open>The lifecycle operations of the packages\<close>

subsection \<open>\<open>LLVM\<close>\<close>

text \<open>\<open>int(self.version.split(".")[0])\<close>, raising \<open>ValueError\<close> when it is no number.\<close>

definition LLVM_major_version :: "LLVM \<Rightarrow> int io" where
  "LLVM_major_version self =
     (case py_int (case py_split (CHR ''.'') (LLVM.version self) of [] \<Rightarrow> [] | x # _ \<Rightarrow> x) of
        None \<Rightarrow> raise ValueError
      | Some n \<Rightarrow> ret n)"

text \<open>The inner function \<open>get(repo, clonedir)\<close> of \<open>LLVM.fetch\<close>.\<close>

definition LLVM_get :: "env \<Rightarrow> LLVM \<Rightarrow> string \<Rightarrow> string \<Rightarrow> unit io" where
  "LLVM_get e self repo clonedir =
     (let basedir = py_dirname clonedir;
          dirname = repo @ ''-'' @ LLVM.version self @ ''.src'';
          tarname = dirname @ ''.tar.xz''
      in seq (if_do (basedir \<noteq> []) (os_makedirs basedir))
           (bind (LLVM_major_version self) (\<lambda>major_version.
              block
                [if major_version \<ge> 8
                 then download e (''https://github.com/llvm/llvm-project/releases/download''
                        @ ''/llvmorg-'' @ LLVM.version self @ ''/'' @ tarname)
                 else download e (''https://releases.llvm.org/'' @ LLVM.version self
                        @ ''/'' @ tarname),
                 run_cmd e (Argv [''tar'', ''-xf'', tarname]),
                 shutil_move dirname clonedir,
                 os_remove tarname])))"

definition LLVM_fetch :: "env \<Rightarrow> LLVM \<Rightarrow> unit io" where
  "LLVM_fetch e self =
     (case LLVM.commit self of
        Some c \<Rightarrow>
          block
            [run_cmd e (Argv [''git'', ''clone'', ''https://github.com/llvm/llvm-project.git'',
                              ''src'']),
             os_chdir ''src'',
             run_cmd e (Argv [''git'', ''checkout'', c])]
      | None \<Rightarrow>
          bind (LLVM_major_version self) (\<lambda>major_version.
            if major_version \<ge> 9 then LLVM_get e self ''llvm-project'' ''src''
            else
              block
                [LLVM_get e self ''llvm'' ''src'',
                 if major_version \<ge> 8 then LLVM_get e self ''clang'' ''src/tools/clang''
                 else LLVM_get e self ''cfe'' ''src/tools/clang'',
                 if_do (compiler_rt self)
                   (LLVM_get e self ''compiler-rt'' ''src/projects/compiler-rt''),
                 if_do (lld self) (LLVM_get e self ''lld'' ''src/projects/lld'')]))"

text \<open>
  The path handed to \<open>apply_patch\<close> in \<open>LLVM.build\<close>: a name without a slash is
  looked up beside the module, with the version appended.
\<close>

definition LLVM_patch_path :: "env \<Rightarrow> LLVM \<Rightarrow> string \<Rightarrow> string" where
  "LLVM_patch_path e self p =
     (if CHR ''/'' \<notin> set p
      then llvm_module_dir e @ ''/'' @ p @ ''-'' @ LLVM.version self @ ''.patch''
      else p)"

text \<open>
  One iteration of the patch loop of \<open>LLVM.build\<close>. \<open>original_dir\<close> is \<open>None\<close> unless
  the reference is a tuple; the final test \<open>if original_dir\<close> holds for a non-empty
  string.
\<close>

definition LLVM_apply_one :: "env \<Rightarrow> LLVM \<Rightarrow> patch \<Rightarrow> unit io" where
  "LLVM_apply_one e self p =
     bind (case p of
             InDir patch_dir q \<Rightarrow>
               bind os_getcwd (\<lambda>d. seq (os_chdir patch_dir) (ret (Some d, q)))
           | Name q \<Rightarrow> ret (None, q))
       (\<lambda>(original_dir, q).
          seq (bind (apply_patch e (LLVM_patch_path e self q) 1) (\<lambda>_. ret ()))
            (case original_dir of
               None \<Rightarrow> ret ()
             | Some d \<Rightarrow> if_do (d \<noteq> []) (os_chdir d)))"

definition LLVM_apply_patches :: "env \<Rightarrow> LLVM \<Rightarrow> unit io" where
  "LLVM_apply_patches e self =
     block
       [os_chdir ''src'',
        bind (reads (\<lambda>w. store w (LLVM.patches self))) (\<lambda>ps.
          for_each ps (LLVM_apply_one e self)),
        os_chdir ''..'']"

definition LLVM_cmake_args :: "env \<Rightarrow> LLVM \<Rightarrow> int \<Rightarrow> string list" where
  "LLVM_cmake_args e self major_version =
     (if (case LLVM.commit self of None \<Rightarrow> False | Some c \<Rightarrow> c \<noteq> []) \<or> major_version \<ge> 9
      then
        (let projects = [''clang''] @ (if lld self then [''lld''] else []);
             runtimes = (if compiler_rt self then [''compiler-rt''] else [])
         in [''cmake'', ''-G'', ''Ninja'',
             ''-DCMAKE_INSTALL_PREFIX='' @ pkg_path e (LLVM_ident self) [''install''],
             ''-DLLVM_BINUTILS_INCDIR='' @ pkg_path e (binutils_ident e) [''install/include''],
             ''-DLLVM_ENABLE_PROJECTS='' @ py_join '','' projects,
             ''-DLLVM_ENABLE_RUNTIMES='' @ py_join '','' runtimes,
             ''-DCMAKE_BUILD_TYPE=Release'',
             ''-DLLVM_ENABLE_ASSERTIONS=On'',
             ''-DLLVM_OPTIMIZED_TABLEGEN=On'',
             ''-DCMAKE_C_COMPILER=gcc'',
             ''-DCMAKE_CXX_COMPILER=g++'']
            @ build_flags self @ [''../src/llvm''])
      else
        [''cmake'', ''-G'', ''Ninja'',
         ''-DCMAKE_INSTALL_PREFIX='' @ pkg_path e (LLVM_ident self) [''install''],
         ''-DLLVM_BINUTILS_INCDIR='' @ pkg_path e (binutils_ident e) [''install/include''],
         ''-DCMAKE_BUILD_TYPE=Release'',
         ''-DLLVM_ENABLE_ASSERTIONS=On'',
         ''-DLLVM_OPTIMIZED_TABLEGEN=On'',
         ''-DCMAKE_C_COMPILER=gcc'',
         ''-DCMAKE_CXX_COMPILER=g++'']
        @ build_flags self @ [''../src''])"

definition LLVM_compile :: "env \<Rightarrow> LLVM \<Rightarrow> int \<Rightarrow> unit io" where
  "LLVM_compile e self major_version =
     block
       [os_makedirs ''obj'',
        os_chdir ''obj'',
        run_cmd e (Argv (LLVM_cmake_args e self major_version)),
        bind (reads (\<lambda>w. jobs (ctx w))) (\<lambda>j.
          run_cmd e (Shell (''cmake --build . -- -j '' @ str_int j)))]"

definition LLVM_build :: "env \<Rightarrow> LLVM \<Rightarrow> unit io" where
  "LLVM_build e self =
     bind (LLVM_major_version self) (\<lambda>major_version.
       seq (LLVM_apply_patches e self) (LLVM_compile e self major_version))"

definition LLVM_install :: "env \<Rightarrow> LLVM \<Rightarrow> unit io" where
  "LLVM_install e self =
     block [os_chdir ''obj'', run_cmd e (Shell ''cmake --build . --target install'')]"

definition LLVM_is_fetched :: "env \<Rightarrow> LLVM \<Rightarrow> bool io" where
  "LLVM_is_fetched e self = os_path_exists ''src''"

definition LLVM_is_built :: "env \<Rightarrow> LLVM \<Rightarrow> bool io" where
  "LLVM_is_built e self = os_path_exists ''obj/bin/llvm-config''"

text \<open>
  \<open>LLVM.is_installed\<close>: \<open>preinstalled\<close> is the outcome of the first part, true exactly
  when that part executes \<open>return True\<close>.
\<close>

definition LLVM_preinstalled :: "env \<Rightarrow> LLVM \<Rightarrow> bool io" where
  "LLVM_preinstalled e self =
     bind (reads (\<lambda>w. store w (LLVM.patches self))) (\<lambda>ps.
       if ps = [] then
         bind (run e (Shell ''llvm-config --version'') True) (\<lambda>r.
           case r of
             None \<Rightarrow> ret False
           | Some p \<Rightarrow>
               if returncode p = 0 then
                 (let installed_version = py_strip (stdout p)
                  in if installed_version = LLVM.version self then ret True
                     else seq (log_debug (''installed llvm-config version '' @ installed_version
                                 @ '' is different from required '' @ LLVM.version self))
                            (ret False))
               else ret False)
       else ret False)"

definition LLVM_is_installed :: "env \<Rightarrow> LLVM \<Rightarrow> bool io" where
  "LLVM_is_installed e self =
     bind (LLVM_preinstalled e self) (\<lambda>found.
       if found then ret True else os_path_exists ''install/bin/llvm-config'')"

subsection \<open>\<open>LLVMBinDist\<close>\<close>

definition LLVMBinDist_is_fetched :: "env \<Rightarrow> LLVMBinDist \<Rightarrow> bool io" where
  "LLVMBinDist_is_fetched e self = os_path_exists ''src''"

definition LLVMBinDist_fetch :: "env \<Rightarrow> LLVMBinDist \<Rightarrow> unit io" where
  "LLVMBinDist_fetch e self =
     (let ident = ''clang+llvm-'' @ LLVMBinDist.version self @ ''-'' @ target self;
          tarname = ident @ ''.tar.xz''
      in block
           [download e (''http://releases.llvm.org/'' @ LLVMBinDist.version self
              @ ''/'' @ tarname),
            run_cmd e (Argv [''tar'', ''-xf'', tarname]),
            shutil_move ident ''src'',
            os_remove tarname])"

definition LLVMBinDist_is_built :: "env \<Rightarrow> LLVMBinDist \<Rightarrow> bool io" where
  "LLVMBinDist_is_built e self = ret True"

definition LLVMBinDist_build :: "env \<Rightarrow> LLVMBinDist \<Rightarrow> unit io" where
  "LLVMBinDist_build e self = ret ()"

definition LLVMBinDist_is_installed :: "env \<Rightarrow> LLVMBinDist \<Rightarrow> bool io" where
  "LLVMBinDist_is_installed e self = os_path_exists ''install''"

definition LLVMBinDist_link :: "LLVMBinDist \<Rightarrow> string \<Rightarrow> unit io" where
  "LLVMBinDist_link self src =
     (let tgt = src @ bin_suffix self
      in bind (os_path_exists src) (\<lambda>have_src.
           bind (os_path_exists tgt) (\<lambda>have_tgt.
             if_do (have_src \<and> \<not> have_tgt)
               (seq (log_debug (''creating symlink '' @ tgt @ '' -> '' @ src))
                  (os_symlink src tgt)))))"

definition LLVMBinDist_install :: "env \<Rightarrow> LLVMBinDist \<Rightarrow> unit io" where
  "LLVMBinDist_install e self =
     block
       [shutil_move ''src'' ''install'',
        os_chdir ''install/bin'',
        if_do (bin_suffix self \<noteq> [])
          (for_each [''clang'', ''clang++'', ''opt'', ''llvm-config''] (LLVMBinDist_link self))]"

subsection \<open>\<open>LibUnwind\<close> and \<open>Gperftools\<close>\<close>

text \<open>
  The path handed to \<open>apply_patch\<close> by both \<open>_apply_patches\<close> methods of
  \<open>gperftools.py\<close>, with \<open>config_root\<close> the directory of that module.
\<close>

definition patch_path :: "string \<Rightarrow> string \<Rightarrow> string" where
  "patch_path config_root p =
     (if CHR ''/'' \<notin> set p then config_root @ ''/'' @ p @ ''.patch'' else p)"

definition LibUnwind_is_fetched :: "env \<Rightarrow> LibUnwind \<Rightarrow> bool io" where
  "LibUnwind_is_fetched e self = os_path_exists ''src''"

definition LibUnwind_fetch :: "env \<Rightarrow> LibUnwind \<Rightarrow> unit io" where
  "LibUnwind_fetch e self =
     (let urlbase = ''http://download.savannah.gnu.org/releases/libunwind/'';
          dirname = LibUnwind_ident self;
          tarname = dirname @ ''.tar.gz''
      in block
           [download e (urlbase @ tarname),
            run_cmd e (Argv [''tar'', ''-xf'', tarname]),
            shutil_move dirname ''src'',
            os_remove tarname])"

definition LibUnwind_is_built :: "env \<Rightarrow> LibUnwind \<Rightarrow> bool io" where
  "LibUnwind_is_built e self = os_path_exists ''obj/src/.libs/libunwind.so''"

definition LibUnwind_apply_one :: "env \<Rightarrow> string \<Rightarrow> string \<Rightarrow> unit io" where
  "LibUnwind_apply_one e config_root p =
     (let q = patch_path config_root p
      in bind (apply_patch e q 1) (\<lambda>applied.
           if_do applied (log_warning (''applied patch '' @ q @ '' to libunwind directory''))))"

definition LibUnwind_apply_patches :: "env \<Rightarrow> LibUnwind \<Rightarrow> unit io" where
  "LibUnwind_apply_patches e self =
     block
       [os_chdir (pkg_path e (LibUnwind_ident self) [''src'']),
        for_each (LibUnwind.patches self) (LibUnwind_apply_one e (packages_module_dir e)),
        os_chdir (pkg_path e (LibUnwind_ident self) [])]"

definition LibUnwind_compile :: "env \<Rightarrow> LibUnwind \<Rightarrow> unit io" where
  "LibUnwind_compile e self =
     block
       [os_makedirs ''obj'',
        os_chdir ''obj'',
        bind (os_path_exists ''Makefile'') (\<lambda>have_makefile.
          if_do (\<not> have_makefile)
            (run_cmd e (Argv [''../src/configure'',
               ''--prefix='' @ pkg_path e (LibUnwind_ident self) [''install'']]))),
        bind (reads (\<lambda>w. jobs (ctx w))) (\<lambda>j. run_cmd e (Shell (''make -j'' @ str_int j)))]"

definition LibUnwind_build :: "env \<Rightarrow> LibUnwind \<Rightarrow> unit io" where
  "LibUnwind_build e self = seq (LibUnwind_apply_patches e self) (LibUnwind_compile e self)"

definition LibUnwind_is_installed :: "env \<Rightarrow> LibUnwind \<Rightarrow> bool io" where
  "LibUnwind_is_installed e self = os_path_exists ''install/lib/libunwind.so''"

definition LibUnwind_install :: "env \<Rightarrow> LibUnwind \<Rightarrow> unit io" where
  "LibUnwind_install e self = block [os_chdir ''obj'', run_cmd e (Shell ''make install'')]"

definition Gperftools_is_fetched :: "env \<Rightarrow> Gperftools \<Rightarrow> bool io" where
  "Gperftools_is_fetched e self = os_path_exists ''src''"

definition Gperftools_fetch :: "env \<Rightarrow> Gperftools \<Rightarrow> unit io" where
  "Gperftools_fetch e self =
     block
       [run_cmd e (Shell ''git clone https://github.com/gperftools/gperftools.git src''),
        os_chdir ''src'',
        run_cmd e (Argv [''git'', ''checkout'', Gperftools.commit self])]"

definition Gperftools_is_built :: "env \<Rightarrow> Gperftools \<Rightarrow> bool io" where
  "Gperftools_is_built e self = os_path_exists ''obj/.libs/libtcmalloc.so''"

definition Gperftools_apply_one :: "env \<Rightarrow> string \<Rightarrow> string \<Rightarrow> unit io" where
  "Gperftools_apply_one e config_root p =
     (let q = patch_path config_root p
      in bind (apply_patch e q 1) (\<lambda>applied.
           if_do applied (log_warning (''applied patch '' @ q @ '' to gperftools directory''))))"

definition Gperftools_apply_patches :: "env \<Rightarrow> Gperftools \<Rightarrow> unit io" where
  "Gperftools_apply_patches e self =
     block
       [os_chdir (pkg_path e (Gperftools_ident self) [''src'']),
        for_each (Gperftools.patches self) (Gperftools_apply_one e (packages_module_dir e)),
        os_chdir (pkg_path e (Gperftools_ident self) [])]"

definition Gperftools_compile :: "env \<Rightarrow> Gperftools \<Rightarrow> unit io" where
  "Gperftools_compile e self =
     block
       [bind (os_path_exists ''src/configure'') (\<lambda>have_configure.
          bind (os_path_exists ''src/INSTALL'') (\<lambda>have_install.
            if_do (\<not> have_configure \<or> \<not> have_install)
              (block
                 [os_chdir ''src'',
                  run_cmd e (Shell ''autoreconf -vfi''),
                  goto_rootdir e (Gperftools_ident self)]))),
        os_makedirs ''obj'',
        os_chdir ''obj'',
        bind (os_path_exists ''Makefile'') (\<lambda>have_makefile.
          if_do (\<not> have_makefile)
            (run_cmd e (Argv [''../src/configure'',
               ''CPPFLAGS=-I'' @ pkg_path e (LibUnwind_ident (libunwind self)) [''install/include''],
               ''LDFLAGS=-L'' @ pkg_path e (LibUnwind_ident (libunwind self)) [''install/lib''],
               ''--prefix='' @ pkg_path e (Gperftools_ident self) [''install'']]))),
        bind (reads (\<lambda>w. jobs (ctx w))) (\<lambda>j. run_cmd e (Shell (''make -j'' @ str_int j)))]"

definition Gperftools_build :: "env \<Rightarrow> Gperftools \<Rightarrow> unit io" where
  "Gperftools_build e self = seq (Gperftools_apply_patches e self) (Gperftools_compile e self)"

definition Gperftools_is_installed :: "env \<Rightarrow> Gperftools \<Rightarrow> bool io" where
  "Gperftools_is_installed e self = os_path_exists ''install/lib/libtcmalloc.so''"

definition Gperftools_install :: "env \<Rightarrow> Gperftools \<Rightarrow> unit io" where
  "Gperftools_install e self = block [os_chdir ''obj'', run_cmd e (Shell ''make install'')]"

section \<open>The package contract\<close>

text \<open>
  The four recipes behind one interface: each operation dispatches on the variant, as
  the method call on a \<open>Package\<close> object does.
\<close>

datatype package =
    PkgLLVM LLVM
  | PkgLLVMBinDist LLVMBinDist
  | PkgLibUnwind LibUnwind
  | PkgGperftools Gperftools

fun ident :: "package \<Rightarrow> string" where
  "ident (PkgLLVM x) = LLVM_ident x"
| "ident (PkgLLVMBinDist x) = LLVMBinDist_ident x"
| "ident (PkgLibUnwind x) = LibUnwind_ident x"
| "ident (PkgGperftools x) = Gperftools_ident x"

fun fetch :: "env \<Rightarrow> package \<Rightarrow> unit io" where
  "fetch e (PkgLLVM x) = LLVM_fetch e x"
| "fetch e (PkgLLVMBinDist x) = LLVMBinDist_fetch e x"
| "fetch e (PkgLibUnwind x) = LibUnwind_fetch e x"
| "fetch e (PkgGperftools x) = Gperftools_fetch e x"

fun build :: "env \<Rightarrow> package \<Rightarrow> unit io" where
  "build e (PkgLLVM x) = LLVM_build e x"
| "build e (PkgLLVMBinDist x) = LLVMBinDist_build e x"
| "build e (PkgLibUnwind x) = LibUnwind_build e x"
| "build e (PkgGperftools x) = Gperftools_build e x"

fun install :: "env \<Rightarrow> package \<Rightarrow> unit io" where
  "install e (PkgLLVM x) = LLVM_install e x"
| "install e (PkgLLVMBinDist x) = LLVMBinDist_install e x"
| "install e (PkgLibUnwind x) = LibUnwind_install e x"
| "install e (PkgGperftools x) = Gperftools_install e x"

fun is_fetched :: "env \<Rightarrow> package \<Rightarrow> bool io" where
  "is_fetched e (PkgLLVM x) = LLVM_is_fetched e x"
| "is_fetched e (PkgLLVMBinDist x) = LLVMBinDist_is_fetched e x"
| "is_fetched e (PkgLibUnwind x) = LibUnwind_is_fetched e x"
| "is_fetched e (PkgGperftools x) = Gperftools_is_fetched e x"

fun is_built :: "env \<Rightarrow> package \<Rightarrow> bool io" where
  "is_built e (PkgLLVM x) = LLVM_is_built e x"
| "is_built e (PkgLLVMBinDist x) = LLVMBinDist_is_built e x"
| "is_built e (PkgLibUnwind x) = LibUnwind_is_built e x"
| "is_built e (PkgGperftools x) = Gperftools_is_built e x"

fun is_installed :: "env \<Rightarrow> package \<Rightarrow> bool io" where
  "is_installed e (PkgLLVM x) = LLVM_is_installed e x"
| "is_installed e (PkgLLVMBinDist x) = LLVMBinDist_is_installed e x"
| "is_installed e (PkgLibUnwind x) = LibUnwind_is_installed e x"
| "is_installed e (PkgGperftools x) = Gperftools_is_installed e x"

text \<open>
  The paths of the declared patches of a package, in the order of its patch list, as its
  build hands them to \<open>apply_patch\<close>. \<open>LLVMBinDist\<close> declares no patches.
\<close>

fun patch_file :: "patch \<Rightarrow> string" where
  "patch_file (Name q) = q"
| "patch_file (InDir d q) = q"

fun declared_patches :: "env \<Rightarrow> list_store \<Rightarrow> package \<Rightarrow> string list" where
  "declared_patches e h (PkgLLVM x) =
     map (\<lambda>p. LLVM_patch_path e x (patch_file p)) (h (LLVM.patches x))"
| "declared_patches e h (PkgLLVMBinDist x) = []"
| "declared_patches e h (PkgLibUnwind x) =
     map (patch_path (packages_module_dir e)) (LibUnwind.patches x)"
| "declared_patches e h (PkgGperftools x) =
     map (patch_path (packages_module_dir e)) (Gperftools.patches x)"

section \<open>The stages of a run\<close>

text \<open>
  Modelled from the spec: the lifecycle executor, which is not among the sources. For one
  package it positions the working directory, invokes a stage when its probe is false or
  its force flag is set, re-checks the probe afterwards and treats a probe that is still
  false as fatal. The probes and stages use paths relative to the package directory and
  some stages leave the working directory elsewhere, so the directory is positioned
  before every probe and every stage. The result of \<open>stage\<close> tells whether the stage
  was invoked; \<open>run_stages\<close> returns this for fetch, build and install.
\<close>

definition stage :: "env \<Rightarrow> package \<Rightarrow> bool \<Rightarrow> bool io \<Rightarrow> unit io \<Rightarrow> bool io" where
  "stage e p force probe operation =
     seq (goto_rootdir e (ident p))
       (bind probe (\<lambda>satisfied.
          if satisfied \<and> \<not> force then ret False
          else
            seq (block
                   [operation,
                    goto_rootdir e (ident p),
                    bind probe (\<lambda>ok. if ok then ret () else raise FatalError)])
              (ret True)))"

definition run_stages :: "env \<Rightarrow> package \<Rightarrow> bool \<Rightarrow> bool \<Rightarrow> bool \<Rightarrow> (bool \<times> bool \<times> bool) io" where
  "run_stages e p force_fetch force_build force_install =
     bind (stage e p force_fetch (is_fetched e p) (fetch e p)) (\<lambda>fetched.
       bind (stage e p force_build (is_built e p) (build e p)) (\<lambda>built.
         bind (stage e p force_install (is_installed e p) (install e p)) (\<lambda>installed.
           ret (fetched, built, installed))))"

section \<open>Vocabulary of the properties\<close>

text \<open>The external calls an operation added to the history.\<close>

definition new_events :: "world \<Rightarrow> world \<Rightarrow> event list" where
  "new_events w w' = drop (length (trace w)) (trace w')"

fun is_patch :: "event \<Rightarrow> bool" where
  "is_patch (ApplyPatch p n d) = True"
| "is_patch _ = False"

fun is_run :: "event \<Rightarrow> bool" where
  "is_run (Run c d a) = True"
| "is_run _ = False"

text \<open>The patch path and strip level of each \<open>apply_patch\<close> call, in order.\<close>

fun patch_args :: "event list \<Rightarrow> (string \<times> nat) list" where
  "patch_args [] = []"
| "patch_args (ApplyPatch p n d # es) = (p, n) # patch_args es"
| "patch_args (_ # es) = patch_args es"

text \<open>The working directory of each \<open>apply_patch\<close> call, and of each process run.\<close>

fun patch_cwds :: "event list \<Rightarrow> path list" where
  "patch_cwds [] = []"
| "patch_cwds (ApplyPatch p n d # es) = d # patch_cwds es"
| "patch_cwds (_ # es) = patch_cwds es"

fun run_cwds :: "event list \<Rightarrow> path list" where
  "run_cwds [] = []"
| "run_cwds (Run c d a # es) = d # run_cwds es"
| "run_cwds (_ # es) = run_cwds es"

text \<open>
  A working directory as \<open>os.getcwd\<close> can print it and \<open>os.chdir\<close> can read it back:
  no component is empty, \<open>.\<close> or \<open>..\<close>, or contains a slash.
\<close>

definition wf_component :: "string \<Rightarrow> bool" where
  "wf_component c \<longleftrightarrow> c \<noteq> [] \<and> c \<noteq> ''.'' \<and> c \<noteq> ''..'' \<and> CHR ''/'' \<notin> set c"

definition wf_path :: "path \<Rightarrow> bool" where
  "wf_path p \<longleftrightarrow> list_all wf_component p"

text \<open>Two worlds that differ at most in the messages logged.\<close>

definition same_but_logs :: "world \<Rightarrow> world \<Rightarrow> bool" where
  "same_but_logs w1 w2 \<longleftrightarrow>
     files w1 = files w2 \<and> cwd w1 = cwd w2 \<and> ctx w1 = ctx w2 \<and> store w1 = store w2
     \<and> trace w1 = trace w2"

text \<open>
  Two environments that differ at most in the boolean \<open>apply_patch\<close> returns: every
  patch fails in both or succeeds in both, with the same resulting tree.
\<close>

definition same_but_patch_result :: "env \<Rightarrow> env \<Rightarrow> bool" where
  "same_but_patch_result e1 e2 \<longleftrightarrow>
     run_fx e1 = run_fx e2 \<and> download_fx e1 = download_fx e2 \<and> pkg_path e1 = pkg_path e2
     \<and> llvm_module_dir e1 = llvm_module_dir e2
     \<and> packages_module_dir e1 = packages_module_dir e2
     \<and> binutils_ident e1 = binutils_ident e2
     \<and> (\<forall>p n d f. map_option snd (patch_fx e1 p n d f) = map_option snd (patch_fx e2 p n d f))"

text \<open>
  \<open>emits P m\<close>: whatever its outcome, \<open>m\<close> only adds external calls that satisfy \<open>P\<close>
  to the history. \<open>sim m1 m2\<close>: from worlds that differ at most in the log, \<open>m1\<close> and
  \<open>m2\<close> give the same result (or the same exception) and worlds that again differ at
  most in the log.
\<close>

definition emits :: "(event \<Rightarrow> bool) \<Rightarrow> 'a io \<Rightarrow> bool" where
  "emits P m \<longleftrightarrow> (\<forall>w. \<exists>es. trace (snd (m w)) = trace w @ es \<and> list_all P es)"

definition sim :: "'a io \<Rightarrow> 'a io \<Rightarrow> bool" where
  "sim m1 m2 \<longleftrightarrow>
     (\<forall>w1 w2. same_but_logs w1 w2 \<longrightarrow>
        fst (m1 w1) = fst (m2 w2) \<and> same_but_logs (snd (m1 w1)) (snd (m2 w2)))"

text \<open>
  \<open>extends f g\<close>: every node of \<open>f\<close> is still there, unchanged, in \<open>g\<close>. An environment
  is additive when no external command and no patch removes or replaces an existing
  node, and its version probe is quiet when running \<open>llvm-config --version\<close> changes no
  file. \<open>additive m\<close> says the same of an operation. \<open>rooted r w\<close>: the working directory
  is \<open>r\<close> and \<open>r\<close> with all its ancestors are directories.
\<close>

definition extends :: "fs \<Rightarrow> fs \<Rightarrow> bool" where
  "extends f g \<longleftrightarrow> (\<forall>p n. map_of f p = Some n \<longrightarrow> map_of g p = Some n)"

definition additive_env :: "env \<Rightarrow> bool" where
  "additive_env e \<longleftrightarrow>
     (\<forall>c d f. extends f (snd (run_fx e c d f)))
     \<and> (\<forall>p n d f b g. patch_fx e p n d f = Some (b, g) \<longrightarrow> extends f g)"

definition quiet_probe :: "env \<Rightarrow> bool" where
  "quiet_probe e \<longleftrightarrow> (\<forall>d f. snd (run_fx e (Shell ''llvm-config --version'') d f) = f)"

definition absolute :: "string \<Rightarrow> bool" where
  "absolute s \<longleftrightarrow> (case s of [] \<Rightarrow> False | c # _ \<Rightarrow> c = CHR ''/'')"

definition additive :: "'a io \<Rightarrow> bool" where
  "additive m \<longleftrightarrow> (\<forall>w. extends (files w) (files (snd (m w))))"

definition rooted :: "path \<Rightarrow> world \<Rightarrow> bool" where
  "rooted r w \<longleftrightarrow> cwd w = r \<and> (\<forall>q. prefix q r \<longrightarrow> node_at (files w) q = Some Dir)"

section \<open>Concrete inputs\<close>

text \<open>Concrete inputs used by the closed theorems below.\<close>

definition ctx_O2 :: build_context where
  "ctx_O2 = \<lparr>cc = ''gcc'', cxx = ''g++'', ar = ''ar'', nm = ''nm'', ranlib = ''ranlib'',
             cflags = [''-O2''], cxxflags = [''-O2''], ldflags = [''-lm''], jobs = 8\<rparr>"

definition empty_store :: list_store where
  "empty_store = (\<lambda>_. [])"

definition llvm_with_rt :: LLVM where
  "llvm_with_rt = fst (LLVM_init empty_store ''7.0.0'' True None False None [])"

definition llvm_without_rt :: LLVM where
  "llvm_without_rt = fst (LLVM_init empty_store ''7.0.0'' False None False None [])"

text \<open>
  An environment in which every external command succeeds and changes nothing,
  \<open>llvm-config --version\<close> prints \<open>7.0.0\<close> and every patch is freshly applied; the
  same environment with every patch already applied; and packages with the file systems
  their builds start from.
\<close>

definition env_preinstalled :: env where
  "env_preinstalled =
     \<lparr>run_fx = (\<lambda>c d f.
        (if c = Shell ''llvm-config --version''
         then Some \<lparr>returncode = 0, stdout = ''7.0.0'' @ [CHR 0x0A]\<rparr>
         else Some \<lparr>returncode = 0, stdout = []\<rparr>, f)),
      download_fx = (\<lambda>u d f. Some f),
      patch_fx = (\<lambda>p n d f. Some (True, f)),
      pkg_path = (\<lambda>i args. ''/build/packages/'' @ i @ concat (map (\<lambda>a. CHR ''/'' # a) args)),
      llvm_module_dir = ''/infra/packages/llvm'',
      packages_module_dir = ''/infra/packages'',
      binutils_ident = ''binutils-2.38-gold''\<rparr>"

definition world_llvm7 :: world where
  "world_llvm7 =
     \<lparr>files = [], cwd = [''build'', ''packages'', ''llvm-7.0.0''], ctx = ctx_O2,
      store = empty_store, trace = [], logs = []\<rparr>"

definition llvm4_rt :: LLVM where
  "llvm4_rt = fst (LLVM_init empty_store ''4.0.0'' True None False None [])"

definition world_llvm4 :: world where
  "world_llvm4 =
     \<lparr>files = [([''build'', ''packages'', ''llvm-4.0.0'', ''install'', ''bin'', ''llvm-config''],
                File)],
      cwd = [''build'', ''packages'', ''llvm-4.0.0''], ctx = ctx_O2,
      store = snd (LLVM_init empty_store ''4.0.0'' True None False None []),
      trace = [], logs = []\<rparr>"

definition libunwind_14 :: LibUnwind where
  "libunwind_14 = LibUnwind_init ''1.4'' [''fix'', ''/abs/x.patch'']"

definition world_libunwind :: world where
  "world_libunwind =
     \<lparr>files = [([''build''], Dir),
               ([''build'', ''packages''], Dir),
               ([''build'', ''packages'', ''libunwind-1.4''], Dir),
               ([''build'', ''packages'', ''libunwind-1.4'', ''src''], Dir)],
      cwd = [''build'', ''packages'', ''libunwind-1.4''], ctx = ctx_O2,
      store = empty_store, trace = [], logs = []\<rparr>"

definition env_already :: env where
  "env_already = env_preinstalled\<lparr>patch_fx := (\<lambda>p n d f. Some (False, f))\<rparr>"

definition store_patched :: list_store where
  "store_patched =
     empty_store(1 := [Name ''gold-plugins'', InDir ''llvm'' ''patches/LLVM-uniqueptr-fix.patch''])"

definition llvm7_patched :: LLVM where
  "llvm7_patched = fst (LLVM_init store_patched ''7.0.0'' False None False (Some 1) [])"

definition world_llvm_src :: world where
  "world_llvm_src =
     \<lparr>files = [([''build''], Dir),
               ([''build'', ''packages''], Dir),
               ([''build'', ''packages'', ''llvm-7.0.0''], Dir),
               ([''build'', ''packages'', ''llvm-7.0.0'', ''src''], Dir),
               ([''build'', ''packages'', ''llvm-7.0.0'', ''src'', ''llvm''], Dir)],
      cwd = [''build'', ''packages'', ''llvm-7.0.0''], ctx = ctx_O2,
      store = store_patched, trace = [], logs = []\<rparr>"

definition gperftools_29 :: Gperftools where
  "gperftools_29 = Gperftools_init ''2.9'' ''1.4-rc1'' [''fix'']"

definition world_gperftools :: world where
  "world_gperftools =
     \<lparr>files = [([''build''], Dir),
               ([''build'', ''packages''], Dir),
               ([''build'', ''packages'', ''gperftools-2.9''], Dir),
               ([''build'', ''packages'', ''gperftools-2.9'', ''src''], Dir)],
      cwd = [''build'', ''packages'', ''gperftools-2.9''], ctx = ctx_O2,
      store = empty_store, trace = [], logs = []\<rparr>"

text \<open>
  For the stages of a run: an environment whose \<open>tar\<close> unpacks a binary distribution
  with one program in \<open>bin\<close>, and an additive one whose \<open>make\<close> and \<open>make install\<close>
  leave the files the \<open>LibUnwind\<close> probes look for; a download stores a file under the
  last component of its URL.
\<close>

definition url_basename :: "string \<Rightarrow> string" where
  "url_basename u = last (py_split (CHR ''/'') u)"

definition env_bindist :: env where
  "env_bindist =
     \<lparr>run_fx = (\<lambda>c d f.
        (Some \<lparr>returncode = 0, stdout = []\<rparr>,
         if c = Argv [''tar'', ''-xf'', ''clang+llvm-7.0.0-x86_64-linux.tar.xz'']
         then [(d @ [''clang+llvm-7.0.0-x86_64-linux''], Dir),
               (d @ [''clang+llvm-7.0.0-x86_64-linux'', ''bin''], Dir),
               (d @ [''clang+llvm-7.0.0-x86_64-linux'', ''bin'', ''clang''], File)] @ f
         else f)),
      download_fx = (\<lambda>u d f. Some ((d @ [url_basename u], File) # f)),
      patch_fx = (\<lambda>p n d f. Some (True, f)),
      pkg_path = (\<lambda>i args. ''/build/packages/'' @ i @ concat (map (\<lambda>a. CHR ''/'' # a) args)),
      llvm_module_dir = ''/infra/packages/llvm'',
      packages_module_dir = ''/infra/packages'',
      binutils_ident = ''binutils-2.38-gold''\<rparr>"

definition bindist7 :: LLVMBinDist where
  "bindist7 = \<lparr>LLVMBinDist.version = ''7.0.0'', target = ''x86_64-linux'', bin_suffix = ''-7''\<rparr>"

definition world_fresh :: world where
  "world_fresh =
     \<lparr>files = [], cwd = [], ctx = ctx_O2, store = empty_store, trace = [], logs = []\<rparr>"

definition env_make :: env where
  "env_make =
     \<lparr>run_fx = (\<lambda>c d f.
        (Some \<lparr>returncode = 0, stdout = []\<rparr>,
         f @ (if c = Argv [''tar'', ''-xf'', ''libunwind-1.4.tar.gz'']
              then [(d @ [''libunwind-1.4''], Dir)]
              else if c = Shell ''make -j8''
              then [(d @ [''src''], Dir), (d @ [''src'', ''.libs''], Dir),
                    (d @ [''src'', ''.libs'', ''libunwind.so''], File)]
              else if c = Shell ''make install''
              then [(butlast d @ [''install''], Dir), (butlast d @ [''install'', ''lib''], Dir),
                    (butlast d @ [''install'', ''lib'', ''libunwind.so''], File)]
              else []))),
      download_fx = (\<lambda>u d f. Some (f @ [(d @ [url_basename u], File)])),
      patch_fx = (\<lambda>p n d f. Some (True, f)),
      pkg_path = (\<lambda>i args. ''/build/packages/'' @ i @ concat (map (\<lambda>a. CHR ''/'' # a) args)),
      llvm_module_dir = ''/infra/packages/llvm'',
      packages_module_dir = ''/infra/packages'',
      binutils_ident = ''binutils-2.38-gold''\<rparr>"

section \<open>Basic facts about the operations\<close>

lemma bind_ret [simp]: "bind (ret x) f = f x"
  by (rule ext) (simp add: bind_def ret_def)

lemma bind_reads [simp]: "bind (reads g) f w = f (g w) w"
  by (simp add: bind_def reads_def)

lemma snd_os_path_exists [simp]: "snd (os_path_exists s w) = w"
  by (simp add: os_path_exists_def reads_def)

lemma fst_os_path_exists [simp]:
  "fst (os_path_exists s w) = Inr (path_exists (files w) (cwd w) s)"
  by (simp add: os_path_exists_def reads_def)

subsection \<open>The outcome of \<open>LLVM.is_installed\<close>\<close>

lemma LLVM_is_installed_result:
  "fst (LLVM_is_installed e self w) =
     Inr (if store w (LLVM.patches self) = [] then
            (case run_fx e (Shell ''llvm-config --version'') (cwd w) (files w) of
               (r, f) \<Rightarrow>
                 (case r of
                    None \<Rightarrow> False
                  | Some p \<Rightarrow> returncode p = 0 \<and> py_strip (stdout p) = LLVM.version self)
                 \<or> path_exists f (cwd w) ''install/bin/llvm-config'')
          else path_exists (files w) (cwd w) ''install/bin/llvm-config'')"
  by (simp add: LLVM_is_installed_def LLVM_preinstalled_def run_def bind_def ret_def seq_def
      log_debug_def os_path_exists_def reads_def Let_def
      split: prod.splits option.splits)

lemma LLVM_is_installed_events:
  "new_events w (snd (LLVM_is_installed e self w)) =
     (if store w (LLVM.patches self) = []
      then [Run (Shell ''llvm-config --version'') (cwd w) True] else [])"
  by (simp add: LLVM_is_installed_def LLVM_preinstalled_def run_def bind_def ret_def seq_def
      log_debug_def os_path_exists_def reads_def Let_def new_events_def
      split: prod.splits option.splits)

lemma LLVM_is_installed_frame:
  "ctx (snd (LLVM_is_installed e self w)) = ctx w
   \<and> cwd (snd (LLVM_is_installed e self w)) = cwd w
   \<and> store (snd (LLVM_is_installed e self w)) = store w
   \<and> files (snd (LLVM_is_installed e self w)) =
       (if store w (LLVM.patches self) = []
        then snd (run_fx e (Shell ''llvm-config --version'') (cwd w) (files w))
        else files w)"
  by (simp add: LLVM_is_installed_def LLVM_preinstalled_def run_def bind_def ret_def seq_def
      log_debug_def os_path_exists_def reads_def Let_def new_events_def
      split: prod.splits option.splits)

lemma resolve_simps [simp]:
  "resolve d [] = d"
  by (simp add: resolve_def push_component_def)

subsection \<open>Which external calls an operation can make\<close>

lemma bind_cases:
  assumes "bind m f w = (r, w')"
  obtains (err) x where "m w = (Inl x, w')" and "r = Inl x"
    | (ok) x w1 where "m w = (Inr x, w1)" and "f x w1 = (r, w')"
  using assms by (auto simp: bind_def split: prod.splits sum.splits)

lemma seq_cases:
  assumes "seq m n w = (r, w')"
  obtains (err) x where "m w = (Inl x, w')" and "r = Inl x"
    | (ok) w1 where "m w = (Inr (), w1)" and "n w1 = (r, w')"
  using assms unfolding seq_def by (auto elim: bind_cases)

lemma for_each_Nil [simp]: "for_each [] body = ret ()"
  by (simp add: for_each_def)

lemma for_each_Cons [simp]: "for_each (x # xs) body = seq (body x) (for_each xs body)"
  by (simp add: for_each_def)

lemma emitsI:
  assumes "\<And>w r w'. m w = (r, w') \<Longrightarrow> \<exists>es. trace w' = trace w @ es \<and> list_all P es"
  shows "emits P m"
  unfolding emits_def
proof
  fix w
  obtain r w' where "m w = (r, w')" by (cases "m w")
  with assms [OF this] show "\<exists>es. trace (snd (m w)) = trace w @ es \<and> list_all P es" by simp
qed

lemma emitsD:
  assumes "emits P m" and "m w = (r, w')"
  obtains es where "trace w' = trace w @ es" and "list_all P es"
  using assms unfolding emits_def by (metis snd_conv)

lemma emits_ret [simp]: "emits P (ret x)"
  by (simp add: emits_def ret_def)

lemma emits_raise [simp]: "emits P (raise x)"
  by (simp add: emits_def raise_def)

lemma emits_reads [simp]: "emits P (reads g)"
  by (simp add: emits_def reads_def)

lemma emits_bind:
  assumes "emits P m" and "\<And>x. emits P (f x)"
  shows "emits P (bind m f)"
proof (rule emitsI)
  fix w r w'
  assume "bind m f w = (r, w')"
  then show "\<exists>es. trace w' = trace w @ es \<and> list_all P es"
  proof (cases rule: bind_cases)
    case (err x)
    with assms(1) show ?thesis by (auto elim: emitsD)
  next
    case (ok x w1)
    from assms(1) ok(1) obtain es1 where 1: "trace w1 = trace w @ es1" "list_all P es1"
      by (rule emitsD)
    from assms(2) ok(2) obtain es2 where 2: "trace w' = trace w1 @ es2" "list_all P es2"
      by (rule emitsD)
    from 1 2 have "trace w' = trace w @ (es1 @ es2) \<and> list_all P (es1 @ es2)" by simp
    then show ?thesis by blast
  qed
qed

lemma emits_seq: "emits P m \<Longrightarrow> emits P n \<Longrightarrow> emits P (seq m n)"
  unfolding seq_def by (rule emits_bind)

lemma emits_block: "list_all (emits P) ms \<Longrightarrow> emits P (block ms)"
  by (induction ms) (simp_all add: emits_seq)

lemma emits_for_each: "(\<And>x. emits P (body x)) \<Longrightarrow> emits P (for_each xs body)"
  by (induction xs) (simp_all add: emits_seq)

lemma emits_if_do: "emits P m \<Longrightarrow> emits P (if_do b m)"
  by (simp add: if_do_def)

lemma emits_if: "emits P m \<Longrightarrow> emits P n \<Longrightarrow> emits P (if b then m else n)"
  by simp

lemma emits_os [simp]:
  "emits P (os_path_exists s)" "emits P os_getcwd" "emits P (os_chdir s)"
  "emits P (os_makedirs s)" "emits P (shutil_move a b)" "emits P (os_remove s)"
  "emits P (os_symlink a b)" "emits P (log_debug s)" "emits P (log_warning s)"
  by (simp_all add: emits_def os_path_exists_def os_getcwd_def reads_def os_chdir_def
      os_makedirs_def shutil_move_def os_remove_def os_symlink_def log_debug_def
      log_warning_def Let_def split: option.splits node.splits)

lemma trace_run: "trace (snd (run e c a w)) = trace w @ [Run c (cwd w) a]"
  by (simp add: run_def Let_def split: prod.splits option.splits)

lemma trace_download: "trace (snd (download e u w)) = trace w @ [Download u (cwd w)]"
  by (simp add: download_def Let_def split: option.splits)

lemma trace_apply_patch: "trace (snd (apply_patch e p n w)) = trace w @ [ApplyPatch p n (cwd w)]"
  by (simp add: apply_patch_def Let_def split: option.splits prod.splits)

lemma emits_run: "P = is_run \<or> P = (\<lambda>ev. \<not> is_patch ev) \<Longrightarrow> emits P (run e c a)"
  by (auto simp: emits_def trace_run)

lemma emits_run_cmd: "P = is_run \<or> P = (\<lambda>ev. \<not> is_patch ev) \<Longrightarrow> emits P (run_cmd e c)"
  unfolding run_cmd_def by (intro emits_bind emits_run) simp_all

lemma emits_download: "emits (\<lambda>ev. \<not> is_patch ev) (download e u)"
  by (simp add: emits_def trace_download)

lemma emits_apply_patch: "emits is_patch (apply_patch e p n)"
  by (simp add: emits_def trace_apply_patch)

lemma emits_goto_rootdir [simp]: "emits P (goto_rootdir e i)"
  by (simp add: goto_rootdir_def emits_seq)

lemmas emits_intros = emits_bind emits_seq emits_block emits_for_each emits_if_do emits_if
  emits_run_cmd emits_run emits_download emits_apply_patch

lemma emits_LLVM_major [simp]: "emits P (LLVM_major_version self)"
  by (simp add: LLVM_major_version_def split: option.splits)

lemma emits_compile:
  "emits is_run (LLVM_compile e x mv)"
  "emits is_run (LibUnwind_compile e u)"
  "emits is_run (Gperftools_compile e g)"
  unfolding LLVM_compile_def LibUnwind_compile_def Gperftools_compile_def
  by (simp_all add: emits_intros)

lemma emits_apply_patches:
  "emits is_patch (LLVM_apply_patches e x)"
  "emits is_patch (LibUnwind_apply_patches e u)"
  "emits is_patch (Gperftools_apply_patches e g)"
  unfolding LLVM_apply_patches_def LibUnwind_apply_patches_def Gperftools_apply_patches_def
    LLVM_apply_one_def LibUnwind_apply_one_def Gperftools_apply_one_def Let_def
  by (simp_all add: emits_intros split: patch.splits prod.splits option.splits)

lemma emits_LLVM_get: "emits (\<lambda>ev. \<not> is_patch ev) (LLVM_get e x r c)"
  unfolding LLVM_get_def Let_def
  by (simp add: emits_intros)

lemma emits_fetch: "emits (\<lambda>ev. \<not> is_patch ev) (fetch e p)"
  by (cases p)
    (simp_all add: LLVM_fetch_def LLVMBinDist_fetch_def LibUnwind_fetch_def
      Gperftools_fetch_def Let_def emits_intros emits_LLVM_get split: option.splits)

subsection \<open>Successful runs of the patch loops\<close>

lemma patch_args_append: "patch_args (a @ b) = patch_args a @ patch_args b"
  by (induction a rule: patch_args.induct) simp_all

lemma patch_cwds_append: "patch_cwds (a @ b) = patch_cwds a @ patch_cwds b"
  by (induction a rule: patch_cwds.induct) simp_all

lemma run_cwds_append: "run_cwds (a @ b) = run_cwds a @ run_cwds b"
  by (induction a rule: run_cwds.induct) simp_all

lemma new_events_append [simp]: "trace w' = trace w @ es \<Longrightarrow> new_events w w' = es"
  by (simp add: new_events_def)

lemma for_each_success:
  assumes hom: "\<And>a b. F (a @ b) = F a @ F b" "F [] = []"
    and step: "\<And>p w w'. I w \<Longrightarrow> body p w = (Inr (), w') \<Longrightarrow>
                 I w' \<and> (\<exists>es. trace w' = trace w @ es \<and> F es = [g p])"
    and "I w" and "for_each ps body w = (Inr (), w')"
  shows "I w' \<and> (\<exists>es. trace w' = trace w @ es \<and> F es = map g ps)"
  using assms(4,5)
proof (induction ps arbitrary: w)
  case Nil
  then show ?case by (simp add: ret_def hom)
next
  case (Cons p ps)
  from Cons.prems(2) have "seq (body p) (for_each ps body) w = (Inr (), w')" by simp
  then obtain w1 where 1: "body p w = (Inr (), w1)" and 2: "for_each ps body w1 = (Inr (), w')"
    by (cases rule: seq_cases) auto
  from step [OF Cons.prems(1) 1] obtain es1
    where i1: "I w1" and t1: "trace w1 = trace w @ es1" and f1: "F es1 = [g p]" by blast
  from Cons.IH [OF i1 2] obtain es2
    where i2: "I w'" and t2: "trace w' = trace w1 @ es2" and f2: "F es2 = map g ps" by blast
  from t1 t2 f1 f2 have "trace w' = trace w @ (es1 @ es2) \<and> F (es1 @ es2) = map g (p # ps)"
    by (simp add: hom)
  with i2 show ?case by blast
qed

lemma os_chdir_Inr:
  "os_chdir s w = (Inr (), w') \<Longrightarrow> w' = w\<lparr>cwd := resolve (cwd w) s\<rparr>"
  by (auto simp: os_chdir_def split: if_splits option.splits node.splits)

lemma apply_patch_Inr:
  "apply_patch e p n w = (Inr b, w') \<Longrightarrow>
     trace w' = trace w @ [ApplyPatch p n (cwd w)] \<and> cwd w' = cwd w \<and> store w' = store w"
  by (auto simp: apply_patch_def Let_def split: option.splits)

lemma if_do_log_Inr:
  "if_do b (log_warning s) w = (r, w') \<Longrightarrow>
     r = Inr () \<and> trace w' = trace w \<and> cwd w' = cwd w \<and> store w' = store w"
  by (auto simp: if_do_def log_warning_def ret_def split: if_splits)

lemma LibUnwind_apply_one_Inr:
  assumes "LibUnwind_apply_one e cr p w = (Inr (), w')"
  shows "trace w' = trace w @ [ApplyPatch (patch_path cr p) 1 (cwd w)] \<and> cwd w' = cwd w"
  using assms unfolding LibUnwind_apply_one_def Let_def
  by (elim bind_cases) (auto dest!: apply_patch_Inr if_do_log_Inr)

lemma Gperftools_apply_one_Inr:
  assumes "Gperftools_apply_one e cr p w = (Inr (), w')"
  shows "trace w' = trace w @ [ApplyPatch (patch_path cr p) 1 (cwd w)] \<and> cwd w' = cwd w"
  using assms unfolding Gperftools_apply_one_def Let_def
  by (elim bind_cases) (auto dest!: apply_patch_Inr if_do_log_Inr)

lemma block3_Inr:
  assumes "block [a, b, c] w = (Inr (), w')"
  obtains w1 w2 where "a w = (Inr (), w1)" and "b w1 = (Inr (), w2)" and "c w2 = (Inr (), w')"
  using assms by (auto simp: ret_def elim!: seq_cases)

lemma LibUnwind_apply_patches_Inr:
  assumes "LibUnwind_apply_patches e u w = (Inr (), w')"
  shows "patch_args (new_events w w')
           = map (\<lambda>p. (patch_path (packages_module_dir e) p, 1)) (LibUnwind.patches u)"
proof -
  from assms obtain w1 w2 where 1: "os_chdir (pkg_path e (LibUnwind_ident u) [''src'']) w = (Inr (), w1)"
    and 2: "for_each (LibUnwind.patches u) (LibUnwind_apply_one e (packages_module_dir e)) w1 = (Inr (), w2)"
    and 3: "os_chdir (pkg_path e (LibUnwind_ident u) []) w2 = (Inr (), w')"
    unfolding LibUnwind_apply_patches_def by (rule block3_Inr)
  have "True \<and> (\<exists>es. trace w2 = trace w1 @ es \<and> patch_args es
          = map (\<lambda>p. (patch_path (packages_module_dir e) p, 1)) (LibUnwind.patches u))"
    by (rule for_each_success [where I = "\<lambda>_. True", OF patch_args_append _ _ _ 2])
      (auto dest!: LibUnwind_apply_one_Inr)
  with os_chdir_Inr [OF 1] os_chdir_Inr [OF 3] show ?thesis by auto
qed

lemma Gperftools_apply_patches_Inr:
  assumes "Gperftools_apply_patches e u w = (Inr (), w')"
  shows "patch_args (new_events w w')
           = map (\<lambda>p. (patch_path (packages_module_dir e) p, 1)) (Gperftools.patches u)"
proof -
  from assms obtain w1 w2 where 1: "os_chdir (pkg_path e (Gperftools_ident u) [''src'']) w = (Inr (), w1)"
    and 2: "for_each (Gperftools.patches u) (Gperftools_apply_one e (packages_module_dir e)) w1 = (Inr (), w2)"
    and 3: "os_chdir (pkg_path e (Gperftools_ident u) []) w2 = (Inr (), w')"
    unfolding Gperftools_apply_patches_def by (rule block3_Inr)
  have "True \<and> (\<exists>es. trace w2 = trace w1 @ es \<and> patch_args es
          = map (\<lambda>p. (patch_path (packages_module_dir e) p, 1)) (Gperftools.patches u))"
    by (rule for_each_success [where I = "\<lambda>_. True", OF patch_args_append _ _ _ 2])
      (auto dest!: Gperftools_apply_one_Inr)
  with os_chdir_Inr [OF 1] os_chdir_Inr [OF 3] show ?thesis by auto
qed

lemma LLVM_apply_one_Inr:
  assumes "LLVM_apply_one e x p w = (Inr (), w')"
  shows "store w' = store w \<and> (\<exists>es. trace w' = trace w @ es
           \<and> patch_args es = [(LLVM_patch_path e x (patch_file p), 1)])"
proof (cases p)
  case (Name q)
  with assms show ?thesis
    unfolding LLVM_apply_one_def
    by (auto simp: ret_def elim!: bind_cases seq_cases dest!: apply_patch_Inr)
next
  case (InDir d q)
  with assms show ?thesis
    unfolding LLVM_apply_one_def
    by (auto simp: ret_def if_do_def os_getcwd_def reads_def
        elim!: bind_cases seq_cases dest!: apply_patch_Inr os_chdir_Inr split: if_splits)
qed

lemma LLVM_apply_patches_Inr:
  assumes "LLVM_apply_patches e x w = (Inr (), w')"
  shows "patch_args (new_events w w')
           = map (\<lambda>p. (LLVM_patch_path e x (patch_file p), 1)) (store w (LLVM.patches x))"
proof -
  from assms obtain w1 w2 where 1: "os_chdir ''src'' w = (Inr (), w1)"
    and 2: "bind (reads (\<lambda>w. store w (LLVM.patches x)))
              (\<lambda>ps. for_each ps (LLVM_apply_one e x)) w1 = (Inr (), w2)"
    and 3: "os_chdir ''..'' w2 = (Inr (), w')"
    unfolding LLVM_apply_patches_def by (rule block3_Inr)
  from 2 have lp: "for_each (store w1 (LLVM.patches x)) (LLVM_apply_one e x) w1 = (Inr (), w2)"
    by simp
  have "True \<and> (\<exists>es. trace w2 = trace w1 @ es \<and> patch_args es
          = map (\<lambda>p. (LLVM_patch_path e x (patch_file p), 1)) (store w1 (LLVM.patches x)))"
    by (rule for_each_success [where I = "\<lambda>_. True", OF patch_args_append _ _ _ lp])
      (auto dest!: LLVM_apply_one_Inr)
  with os_chdir_Inr [OF 1] os_chdir_Inr [OF 3] show ?thesis by auto
qed

lemma run_not_patch: "is_run ev \<Longrightarrow> \<not> is_patch ev"
  by (cases ev) simp_all

lemma patch_args_runs: "list_all is_run es \<Longrightarrow> patch_args es = []"
  by (induction es rule: patch_args.induct) simp_all

lemma patch_then_run:
  assumes "list_all is_patch a" and "list_all is_run b"
  shows "takeWhile is_patch (a @ b) = a \<and> dropWhile is_patch (a @ b) = b"
proof -
  from assms(2) have "takeWhile is_patch b = []"
    by (cases b) (simp_all add: run_not_patch)
  moreover from this have "dropWhile is_patch b = b"
    by (metis takeWhile_dropWhile_id append_Nil)
  moreover from assms(1) have "\<forall>x \<in> set a. is_patch x" by (simp add: list_all_iff)
  ultimately show ?thesis by (simp add: takeWhile_append2 dropWhile_append2)
qed

lemma two_phase:
  assumes A: "emits is_patch A" and B: "emits is_run B"
    and S: "\<And>w1. A w = (Inr (), w1) \<Longrightarrow> map fst (patch_args (new_events w w1)) = D"
    and run: "seq A B w = (r, w')"
  shows "list_all is_run (dropWhile is_patch (new_events w w'))
         \<and> (dropWhile is_patch (new_events w w') \<noteq> [] \<or> r = Inr ()
              \<longrightarrow> map fst (patch_args (takeWhile is_patch (new_events w w'))) = D)"
  using run
proof (cases rule: seq_cases)
  case (err x)
  from A err(1) obtain es where es: "trace w' = trace w @ es" "list_all is_patch es"
    by (rule emitsD)
  from es(2) have d: "dropWhile is_patch es = []" by (simp add: list_all_iff)
  from es(1) have n: "new_events w w' = es" by simp
  from err(2) show ?thesis unfolding n d by simp
next
  case (ok w1)
  from A ok(1) obtain es1 where es1: "trace w1 = trace w @ es1" "list_all is_patch es1"
    by (rule emitsD)
  from B ok(2) obtain es2 where es2: "trace w' = trace w1 @ es2" "list_all is_run es2"
    by (rule emitsD)
  from es1 es2 have n: "new_events w w' = es1 @ es2" by simp
  from S [OF ok(1)] es1(1) have "map fst (patch_args es1) = D" by simp
  with patch_then_run [OF es1(2) es2(2)] n es2(2) show ?thesis by simp
qed

lemma two_phase_success:
  assumes B: "emits is_run B"
    and S: "\<And>w1. A w = (Inr (), w1) \<Longrightarrow> patch_args (new_events w w1) = D"
    and A: "emits is_patch A"
    and run: "seq A B w = (Inr (), w')"
  shows "patch_args (new_events w w') = D"
  using run
proof (cases rule: seq_cases)
  case (err x)
  then show ?thesis by simp
next
  case (ok w1)
  from A ok(1) obtain es1 where es1: "trace w1 = trace w @ es1" "list_all is_patch es1"
    by (rule emitsD)
  from B ok(2) obtain es2 where es2: "trace w' = trace w1 @ es2" "list_all is_run es2"
    by (rule emitsD)
  from es1 es2 have n: "new_events w w' = es1 @ es2" by simp
  from S [OF ok(1)] es1(1) have "patch_args es1 = D" by simp
  with n es2(2) show ?thesis by (simp add: patch_args_append patch_args_runs)
qed

lemma new_events_same [simp]: "new_events w w = []"
  by (simp add: new_events_def)

lemma LLVM_major_version_disj:
  "LLVM_major_version x = raise ValueError \<or> (\<exists>mv. LLVM_major_version x = ret mv)"
  by (auto simp: LLVM_major_version_def split: option.splits)

lemma LLVM_major_version_cases:
  obtains (bad) "LLVM_major_version x = raise ValueError"
    | (ok) mv where "LLVM_major_version x = ret mv"
  using LLVM_major_version_disj [of x] by blast

subsection \<open>Working directories\<close>

lemma resolve_name [simp]:
  "resolve d ''src'' = d @ [''src'']" "resolve d ''obj'' = d @ [''obj'']"
  "resolve (d @ [c]) ''..'' = d"
  by (simp_all add: resolve_def push_component_def)

lemma py_split_no_sep: "sep \<notin> set c \<Longrightarrow> py_split sep c = [c]"
  by (induction c) auto

lemma py_split_sep: "sep \<notin> set c \<Longrightarrow> py_split sep (c @ sep # r) = c # py_split sep r"
  by (induction c) auto

lemma py_split_components:
  "list_all wf_component p \<Longrightarrow> CHR ''/'' \<notin> set c \<Longrightarrow>
     py_split (CHR ''/'') (c @ concat (map (\<lambda>c. CHR ''/'' # c) p)) = c # p"
proof (induction p arbitrary: c)
  case Nil
  then show ?case by (simp add: py_split_no_sep)
next
  case (Cons a p)
  from Cons.prems have "CHR ''/'' \<notin> set a" by (simp add: wf_component_def)
  with Cons show ?case by (simp add: py_split_sep)
qed

lemma foldl_push_wf:
  "list_all wf_component p \<Longrightarrow> foldl push_component acc p = acc @ p"
  by (induction p arbitrary: acc) (auto simp: push_component_def wf_component_def)

lemma resolve_show_path:
  assumes "wf_path p"
  shows "resolve d (show_path p) = p"
proof (cases p)
  case Nil
  then show ?thesis by (simp add: show_path_def resolve_def push_component_def)
next
  case (Cons a q)
  from assms have wf: "list_all wf_component p" by (simp add: wf_path_def)
  from py_split_components [OF wf, of "[]"]
  have s: "py_split (CHR ''/'') (show_path p) = [] # p"
    using Cons by (simp add: show_path_def)
  have h: "show_path p = CHR ''/'' # a @ concat (map (\<lambda>c. CHR ''/'' # c) q)"
    using Cons by (simp add: show_path_def)
  show ?thesis
    unfolding resolve_def s
    by (simp add: h push_component_def foldl_push_wf [OF wf])
qed

lemma show_path_nonempty [simp]: "show_path p \<noteq> []"
  by (cases p) (simp_all add: show_path_def)

lemma wf_path_src: "wf_path d \<Longrightarrow> wf_path (d @ [''src''])"
  by (simp add: wf_path_def wf_component_def)

lemma patch_cwds_runs: "list_all is_run es \<Longrightarrow> patch_cwds es = []"
  by (induction es rule: patch_cwds.induct) simp_all

lemma run_cwds_patches: "list_all is_patch es \<Longrightarrow> run_cwds es = []"
  by (induction es rule: run_cwds.induct) simp_all

lemma LLVM_apply_one_cwd:
  assumes "wf_path (cwd w)" and "LLVM_apply_one e x p w = (Inr (), w')"
  shows "cwd w' = cwd w \<and> (\<exists>es. trace w' = trace w @ es
           \<and> patch_cwds es = [case p of Name q \<Rightarrow> cwd w | InDir d q \<Rightarrow> resolve (cwd w) d])"
proof (cases p)
  case (Name q)
  with assms(2) show ?thesis
    unfolding LLVM_apply_one_def
    by (auto simp: ret_def elim!: bind_cases seq_cases dest!: apply_patch_Inr)
next
  case (InDir d q)
  with assms(2) show ?thesis
    unfolding LLVM_apply_one_def
    by (auto simp: ret_def if_do_def os_getcwd_def reads_def resolve_show_path [OF assms(1)]
        elim!: bind_cases seq_cases dest!: apply_patch_Inr os_chdir_Inr split: if_splits)
qed

lemma LLVM_apply_patches_cwd:
  assumes wf: "wf_path (cwd w)" and run: "LLVM_apply_patches e x w = (Inr (), w')"
  shows "cwd w' = cwd w
         \<and> patch_cwds (new_events w w')
             = map (\<lambda>p. case p of Name q \<Rightarrow> cwd w @ [''src'']
                         | InDir d q \<Rightarrow> resolve (cwd w @ [''src'']) d)
                 (store w (LLVM.patches x))"
proof -
  from run obtain w1 w2 where 1: "os_chdir ''src'' w = (Inr (), w1)"
    and 2: "bind (reads (\<lambda>w. store w (LLVM.patches x)))
              (\<lambda>ps. for_each ps (LLVM_apply_one e x)) w1 = (Inr (), w2)"
    and 3: "os_chdir ''..'' w2 = (Inr (), w')"
    unfolding LLVM_apply_patches_def by (rule block3_Inr)
  from os_chdir_Inr [OF 1] have w1: "cwd w1 = cwd w @ [''src'']" "trace w1 = trace w"
    "store w1 = store w" by simp_all
  from 2 have lp: "for_each (store w1 (LLVM.patches x)) (LLVM_apply_one e x) w1 = (Inr (), w2)"
    by simp
  have "cwd w2 = cwd w @ [''src''] \<and> (\<exists>es. trace w2 = trace w1 @ es \<and> patch_cwds es
          = map (\<lambda>p. case p of Name q \<Rightarrow> cwd w @ [''src'']
                      | InDir d q \<Rightarrow> resolve (cwd w @ [''src'']) d)
              (store w1 (LLVM.patches x)))"
  proof (rule for_each_success [where I = "\<lambda>v. cwd v = cwd w @ [''src'']",
        OF patch_cwds_append _ _ _ lp])
    show "patch_cwds [] = []" by simp
    show "cwd w1 = cwd w @ [''src'']" by (rule w1)
    fix p v v'
    assume c: "cwd v = cwd w @ [''src'']" and b: "LLVM_apply_one e x p v = (Inr (), v')"
    from wf c have "wf_path (cwd v)" by (simp add: wf_path_src)
    from LLVM_apply_one_cwd [OF this b] c
    show "cwd v' = cwd w @ [''src''] \<and> (\<exists>es. trace v' = trace v @ es \<and> patch_cwds es
            = [case p of Name q \<Rightarrow> cwd w @ [''src'']
               | InDir d q \<Rightarrow> resolve (cwd w @ [''src'']) d])"
      by (cases p) auto
  qed
  with os_chdir_Inr [OF 3] w1 show ?thesis by auto
qed

lemma block4_Inr:
  assumes "block [a, b, c, d] w = (Inr (), w')"
  obtains w1 w2 w3 where "a w = (Inr (), w1)" and "b w1 = (Inr (), w2)"
    and "c w2 = (Inr (), w3)" and "d w3 = (Inr (), w')"
  using assms by (auto simp: ret_def elim!: seq_cases)

lemma os_makedirs_Inr:
  "os_makedirs s w = (Inr (), w') \<Longrightarrow> cwd w' = cwd w \<and> trace w' = trace w"
  by (auto simp: os_makedirs_def Let_def split: if_splits)

lemma run_cmd_Inr:
  "run_cmd e c w = (Inr (), w') \<Longrightarrow> cwd w' = cwd w \<and> trace w' = trace w @ [Run c (cwd w) False]"
  by (auto simp: run_cmd_def run_def bind_def ret_def Let_def
      split: prod.splits option.splits if_splits)

lemma LLVM_compile_cwd:
  assumes "LLVM_compile e x mv w = (Inr (), w')"
  shows "cwd w' = cwd w @ [''obj'']
         \<and> run_cwds (new_events w w') = [cwd w @ [''obj''], cwd w @ [''obj'']]"
proof -
  from assms obtain w1 w2 w3 where 1: "os_makedirs ''obj'' w = (Inr (), w1)"
    and 2: "os_chdir ''obj'' w1 = (Inr (), w2)"
    and 3: "run_cmd e (Argv (LLVM_cmake_args e x mv)) w2 = (Inr (), w3)"
    and 4: "bind (reads (\<lambda>w. jobs (ctx w)))
              (\<lambda>j. run_cmd e (Shell (''cmake --build . -- -j '' @ str_int j))) w3 = (Inr (), w')"
    unfolding LLVM_compile_def by (rule block4_Inr)
  from 4 have 4: "run_cmd e (Shell (''cmake --build . -- -j '' @ str_int (jobs (ctx w3)))) w3
                    = (Inr (), w')" by simp
  from os_makedirs_Inr [OF 1] os_chdir_Inr [OF 2] run_cmd_Inr [OF 3] run_cmd_Inr [OF 4]
  show ?thesis by (simp add: new_events_def)
qed

subsection \<open>Independence of the patch result\<close>

lemma simD:
  assumes "sim m1 m2" and "same_but_logs w1 w2"
  shows "fst (m1 w1) = fst (m2 w2)" and "same_but_logs (snd (m1 w1)) (snd (m2 w2))"
  using assms by (simp_all add: sim_def)

lemma sim_ret [simp]: "sim (ret x) (ret x)"
  by (simp add: sim_def ret_def)

lemma sim_raise [simp]: "sim (raise x) (raise x)"
  by (simp add: sim_def raise_def)

lemma sim_bind:
  assumes "sim m1 m2" and "\<And>x. sim (f1 x) (f2 x)"
  shows "sim (bind m1 f1) (bind m2 f2)"
  unfolding sim_def
proof (intro allI impI)
  fix w1 w2
  assume s: "same_but_logs w1 w2"
  obtain r1 v1 where 1: "m1 w1 = (r1, v1)" by (cases "m1 w1")
  obtain r2 v2 where 2: "m2 w2 = (r2, v2)" by (cases "m2 w2")
  from simD [OF assms(1) s] 1 2 have r: "r1 = r2" and v: "same_but_logs v1 v2" by simp_all
  show "fst (bind m1 f1 w1) = fst (bind m2 f2 w2)
        \<and> same_but_logs (snd (bind m1 f1 w1)) (snd (bind m2 f2 w2))"
  proof (cases r1)
    case (Inl x)
    with 1 2 r v show ?thesis by (auto simp: bind_def)
  next
    case (Inr x)
    with 1 2 r simD [OF assms(2) v, of x] show ?thesis by (auto simp: bind_def)
  qed
qed

lemma sim_seq: "sim m1 m2 \<Longrightarrow> sim n1 n2 \<Longrightarrow> sim (seq m1 n1) (seq m2 n2)"
  unfolding seq_def by (rule sim_bind)

lemma sim_block: "list_all2 sim ms ns \<Longrightarrow> sim (block ms) (block ns)"
  by (induction rule: list_all2_induct) (simp_all add: sim_seq)

lemma sim_for_each: "(\<And>x. sim (b1 x) (b2 x)) \<Longrightarrow> sim (for_each xs b1) (for_each xs b2)"
  by (induction xs) (simp_all add: sim_seq)

lemma sim_if_do: "sim m1 m2 \<Longrightarrow> sim (if_do b m1) (if_do b m2)"
  by (simp add: if_do_def)

lemma sim_if: "sim m1 m2 \<Longrightarrow> sim n1 n2 \<Longrightarrow> sim (if b then m1 else n1) (if b then m2 else n2)"
  by simp

lemma sim_os [simp]:
  "sim (os_path_exists s) (os_path_exists s)" "sim os_getcwd os_getcwd"
  "sim (os_chdir s) (os_chdir s)" "sim (os_makedirs s) (os_makedirs s)"
  "sim (reads (\<lambda>w. jobs (ctx w))) (reads (\<lambda>w. jobs (ctx w)))"
  "sim (reads (\<lambda>w. store w a)) (reads (\<lambda>w. store w a))"
  by (simp_all add: sim_def same_but_logs_def os_path_exists_def os_getcwd_def reads_def
      os_chdir_def os_makedirs_def Let_def split: option.splits node.splits)

lemma sim_run: "run_fx e1 = run_fx e2 \<Longrightarrow> sim (run e1 c a) (run e2 c a)"
  by (simp add: sim_def same_but_logs_def run_def Let_def split: prod.splits option.splits)

lemma sim_run_cmd: "run_fx e1 = run_fx e2 \<Longrightarrow> sim (run_cmd e1 c) (run_cmd e2 c)"
  unfolding run_cmd_def by (intro sim_bind sim_run) simp_all

lemma sim_goto_rootdir: "pkg_path e1 = pkg_path e2 \<Longrightarrow> sim (goto_rootdir e1 i) (goto_rootdir e2 i)"
  by (simp add: goto_rootdir_def sim_seq)

lemma patch_fx_cases:
  assumes "same_but_patch_result e1 e2"
  shows "(patch_fx e1 p n d f = None \<and> patch_fx e2 p n d f = None)
         \<or> (\<exists>b1 b2 g. patch_fx e1 p n d f = Some (b1, g) \<and> patch_fx e2 p n d f = Some (b2, g))"
proof -
  from assms have "map_option snd (patch_fx e1 p n d f) = map_option snd (patch_fx e2 p n d f)"
    by (simp add: same_but_patch_result_def)
  then show ?thesis
    by (cases "patch_fx e1 p n d f"; cases "patch_fx e2 p n d f") auto
qed

lemma sim_apply_patch_then:
  assumes "same_but_patch_result e1 e2"
    and "\<And>b1 b2. sim (k1 b1) (k2 b2)"
  shows "sim (bind (apply_patch e1 p n) k1) (bind (apply_patch e2 p n) k2)"
  unfolding sim_def
proof (intro allI impI)
  fix w1 w2
  assume s: "same_but_logs w1 w2"
  then have eq: "cwd w1 = cwd w2" "files w1 = files w2" by (simp_all add: same_but_logs_def)
  from patch_fx_cases [OF assms(1), of p n "cwd w2" "files w2"]
  consider (fails) "patch_fx e1 p n (cwd w2) (files w2) = None"
      "patch_fx e2 p n (cwd w2) (files w2) = None"
    | (works) b1 b2 g where "patch_fx e1 p n (cwd w2) (files w2) = Some (b1, g)"
      "patch_fx e2 p n (cwd w2) (files w2) = Some (b2, g)"
    by auto
  then show "fst (bind (apply_patch e1 p n) k1 w1) = fst (bind (apply_patch e2 p n) k2 w2)
        \<and> same_but_logs (snd (bind (apply_patch e1 p n) k1 w1))
            (snd (bind (apply_patch e2 p n) k2 w2))"
  proof cases
    case fails
    with s eq show ?thesis
      by (simp add: bind_def apply_patch_def Let_def same_but_logs_def)
  next
    case (works b1 b2 g)
    let ?v1 = "w1\<lparr>trace := trace w1 @ [ApplyPatch p n (cwd w1)], files := g\<rparr>"
    let ?v2 = "w2\<lparr>trace := trace w2 @ [ApplyPatch p n (cwd w2)], files := g\<rparr>"
    from s have v: "same_but_logs ?v1 ?v2" by (simp add: same_but_logs_def)
    from works eq have "bind (apply_patch e1 p n) k1 w1 = k1 b1 ?v1"
      and "bind (apply_patch e2 p n) k2 w2 = k2 b2 ?v2"
      by (simp_all add: bind_def apply_patch_def Let_def)
    with simD [OF assms(2) v] show ?thesis by simp
  qed
qed

lemma sim_log [simp]:
  "sim (if_do b1 (log_warning s1)) (if_do b2 (log_warning s2))"
  by (simp add: sim_def same_but_logs_def if_do_def log_warning_def ret_def)

lemmas sim_intros = sim_bind sim_seq sim_block sim_for_each sim_if_do sim_if sim_run_cmd
  sim_goto_rootdir sim_apply_patch_then

lemma sim_build:
  assumes "same_but_patch_result e1 e2"
  shows "sim (build e1 p) (build e2 p)"
proof -
  from assms have eqs: "run_fx e1 = run_fx e2" "pkg_path e1 = pkg_path e2"
    "llvm_module_dir e1 = llvm_module_dir e2" "packages_module_dir e1 = packages_module_dir e2"
    "binutils_ident e1 = binutils_ident e2"
    by (simp_all add: same_but_patch_result_def)
  have major: "\<And>x. sim (LLVM_major_version x) (LLVM_major_version x)"
    by (simp add: LLVM_major_version_def split: option.splits)
  show ?thesis
  proof (cases p)
    case (PkgLLVM x)
    have "sim (LLVM_build e1 x) (LLVM_build e2 x)"
      unfolding LLVM_build_def LLVM_apply_patches_def LLVM_compile_def LLVM_apply_one_def
        LLVM_cmake_args_def LLVM_patch_path_def eqs
      by (simp add: sim_intros assms major eqs split: patch.splits prod.splits option.splits)
    with PkgLLVM show ?thesis by simp
  next
    case (PkgLLVMBinDist x)
    then show ?thesis by (simp add: LLVMBinDist_build_def)
  next
    case (PkgLibUnwind x)
    have "sim (LibUnwind_build e1 x) (LibUnwind_build e2 x)"
      unfolding LibUnwind_build_def LibUnwind_apply_patches_def LibUnwind_compile_def
        LibUnwind_apply_one_def Let_def eqs
      by (simp add: sim_intros assms eqs)
    with PkgLibUnwind show ?thesis by simp
  next
    case (PkgGperftools x)
    have "sim (Gperftools_build e1 x) (Gperftools_build e2 x)"
      unfolding Gperftools_build_def Gperftools_apply_patches_def Gperftools_compile_def
        Gperftools_apply_one_def Let_def eqs
      by (simp add: sim_intros assms eqs)
    with PkgGperftools show ?thesis by simp
  qed
qed

lemma same_but_logs_refl [simp]: "same_but_logs w w"
  by (simp add: same_but_logs_def)

subsection \<open>Evaluating the concrete builds\<close>

lemmas io_defs = bind_def seq_def ret_def raise_def if_do_def reads_def for_each_def
  os_path_exists_def os_getcwd_def os_chdir_def os_makedirs_def shutil_move_def os_remove_def
  os_symlink_def log_debug_def log_warning_def run_def run_cmd_def download_def apply_patch_def
  goto_rootdir_def path_exists_def node_at_def resolve_def push_component_def show_path_def
  rename_tree_def Let_def

lemma lu_build_ok:
  "fst (LibUnwind_build env_preinstalled libunwind_14 world_libunwind) = Inr ()"
  by (simp add: LibUnwind_build_def LibUnwind_apply_patches_def LibUnwind_apply_one_def
      LibUnwind_compile_def libunwind_14_def world_libunwind_def env_preinstalled_def
      LibUnwind_init_def LibUnwind_ident_def patch_path_def io_defs
      ctx_O2_def str_int_def str_nat.simps)

lemmas llvm_defs = LLVM_build_def LLVM_apply_patches_def LLVM_apply_one_def LLVM_compile_def
  LLVM_major_version_def LLVM_patch_path_def LLVM_ident_def LLVM_init_def
  py_int_def py_strip_def py_isspace_def digit_val_def

lemmas concrete_defs = env_preinstalled_def env_already_def store_patched_def llvm7_patched_def
  world_llvm_src_def gperftools_29_def world_gperftools_def libunwind_14_def
  world_libunwind_def ctx_O2_def empty_store_def str_int_def str_nat.simps

lemma llvm_build_ok:
  "fst (LLVM_build env_preinstalled llvm7_patched world_llvm_src) = Inr ()"
  by (simp add: llvm_defs concrete_defs io_defs)

lemma llvm_apply_patches_ok:
  "fst (LLVM_apply_patches env_preinstalled llvm7_patched world_llvm_src) = Inr ()"
  by (simp add: llvm_defs concrete_defs io_defs)

lemma gperftools_build_ok:
  "fst (Gperftools_build env_preinstalled gperftools_29 world_gperftools) = Inr ()"
  by (simp add: Gperftools_build_def Gperftools_apply_patches_def Gperftools_apply_one_def
      Gperftools_compile_def Gperftools_init_def Gperftools_ident_def LibUnwind_init_def
      LibUnwind_ident_def patch_path_def concrete_defs io_defs)

lemma lu_build_ok2:
  "fst (LibUnwind_build env_already libunwind_14 world_libunwind) = Inr ()"
  by (simp add: LibUnwind_build_def LibUnwind_apply_patches_def LibUnwind_apply_one_def
      LibUnwind_compile_def LibUnwind_init_def LibUnwind_ident_def patch_path_def
      concrete_defs io_defs)

subsection \<open>Additive operations\<close>

lemma extends_refl [simp]: "extends f f"
  by (simp add: extends_def)

lemma extends_trans: "extends f g \<Longrightarrow> extends g h \<Longrightarrow> extends f h"
  by (simp add: extends_def)

lemma extends_new_entries:
  assumes "\<And>k. k \<in> fst ` set new \<Longrightarrow> map_of f k = None"
  shows "extends f (new @ f)"
  unfolding extends_def
proof (intro allI impI)
  fix p n
  assume s: "map_of f p = Some n"
  with assms have "p \<notin> fst ` set new" by force
  then have "map_of new p = None" by (simp add: map_of_eq_None_iff)
  with s show "map_of (new @ f) p = Some n" by (simp add: map_add_def)
qed

lemma node_at_extends: "extends f g \<Longrightarrow> node_at f p = Some n \<Longrightarrow> node_at g p = Some n"
  by (auto simp: extends_def node_at_def split: if_splits)

lemma path_exists_extends:
  assumes "extends f g" and "path_exists f d s"
  shows "path_exists g d s"
proof -
  from assms(2) obtain n where n: "node_at f (resolve d s) = Some n" and s: "s \<noteq> []"
    by (auto simp: path_exists_def Let_def split: option.splits)
  from node_at_extends [OF assms(1) n] have g: "node_at g (resolve d s) = Some n" .
  show ?thesis
  proof (cases n)
    case (Link t)
    with assms(2) n obtain m where "t \<noteq> []"
      and "node_at f (resolve (butlast (resolve d s)) t) = Some m"
      by (auto simp: path_exists_def Let_def)
    with node_at_extends [OF assms(1)] Link g s show ?thesis
      by (auto simp: path_exists_def Let_def)
  qed (use g s in \<open>auto simp: path_exists_def Let_def\<close>)
qed

lemma additiveI:
  assumes "\<And>w r w'. m w = (r, w') \<Longrightarrow> extends (files w) (files w')"
  shows "additive m"
  unfolding additive_def
proof
  fix w
  obtain r w' where "m w = (r, w')" by (cases "m w")
  with assms [OF this] show "extends (files w) (files (snd (m w)))" by simp
qed

lemma additiveD: "additive m \<Longrightarrow> m w = (r, w') \<Longrightarrow> extends (files w) (files w')"
  unfolding additive_def by (metis snd_conv)

lemma additive_ret [simp]: "additive (ret x)"
  by (simp add: additive_def ret_def)

lemma additive_raise [simp]: "additive (raise x)"
  by (simp add: additive_def raise_def)

lemma additive_reads [simp]: "additive (reads g)"
  by (simp add: additive_def reads_def)

lemma additive_bind:
  assumes "additive m" and "\<And>x. additive (f x)"
  shows "additive (bind m f)"
proof (rule additiveI)
  fix w r w'
  assume "bind m f w = (r, w')"
  then show "extends (files w) (files w')"
  proof (cases rule: bind_cases)
    case (err x)
    with assms(1) show ?thesis by (auto dest: additiveD)
  next
    case (ok x w1)
    from additiveD [OF assms(1) ok(1)] additiveD [OF assms(2) ok(2)]
    show ?thesis by (rule extends_trans)
  qed
qed

lemma additive_seq: "additive m \<Longrightarrow> additive n \<Longrightarrow> additive (seq m n)"
  unfolding seq_def by (rule additive_bind)

lemma additive_block: "list_all additive ms \<Longrightarrow> additive (block ms)"
  by (induction ms) (simp_all add: additive_seq)

lemma additive_for_each: "(\<And>x. additive (body x)) \<Longrightarrow> additive (for_each xs body)"
  by (induction xs) (simp_all add: additive_seq)

lemma additive_if_do: "additive m \<Longrightarrow> additive (if_do b m)"
  by (simp add: if_do_def)

lemma additive_if: "additive m \<Longrightarrow> additive n \<Longrightarrow> additive (if b then m else n)"
  by simp

lemma additive_os [simp]:
  "additive (os_path_exists s)" "additive os_getcwd" "additive (os_chdir s)"
  "additive (log_debug s)" "additive (log_warning s)"
  by (simp_all add: additive_def os_path_exists_def os_getcwd_def reads_def os_chdir_def
      log_debug_def log_warning_def split: option.splits node.splits)

lemma additive_makedirs [simp]: "additive (os_makedirs s)"
proof (rule additiveI)
  fix w r w'
  assume m: "os_makedirs s w = (r, w')"
  have "extends (files w) (map (\<lambda>q. (q, Dir))
          (filter (\<lambda>q. node_at (files w) q = None) (prefixes (resolve (cwd w) s))) @ files w)"
    by (rule extends_new_entries) (auto simp: node_at_def split: if_splits)
  with m show "extends (files w) (files w')"
    by (auto simp: os_makedirs_def Let_def split: if_splits)
qed

lemma additive_symlink [simp]: "additive (os_symlink a b)"
proof (rule additiveI)
  fix w r w'
  assume m: "os_symlink a b w = (r, w')"
  show "extends (files w) (files w')"
  proof (cases r)
    case (Inl x)
    with m show ?thesis by (auto simp: os_symlink_def Let_def split: if_splits)
  next
    case (Inr u)
    with m have n: "map_of (files w) (resolve (cwd w) b) = None"
      and f: "files w' = [(resolve (cwd w) b, Link a)] @ files w"
      by (auto simp: os_symlink_def Let_def split: if_splits)
    from n have "extends (files w) ([(resolve (cwd w) b, Link a)] @ files w)"
      by (intro extends_new_entries) auto
    with f show ?thesis by simp
  qed
qed

lemma additive_run: "additive_env e \<Longrightarrow> additive (run e c a)"
  by (auto simp: additive_def additive_env_def run_def Let_def
      split: prod.splits option.splits dest: spec [of _ c])
    (metis snd_conv)+

lemma additive_run_cmd: "additive_env e \<Longrightarrow> additive (run_cmd e c)"
  unfolding run_cmd_def by (intro additive_bind additive_run) simp_all

lemma additive_apply_patch: "additive_env e \<Longrightarrow> additive (apply_patch e p n)"
  by (auto simp: additive_def additive_env_def apply_patch_def Let_def split: option.splits)

lemma additive_goto_rootdir [simp]: "additive (goto_rootdir e i)"
  by (simp add: goto_rootdir_def additive_seq)

lemmas additive_intros = additive_bind additive_seq additive_block additive_for_each
  additive_if_do additive_if additive_run additive_run_cmd additive_apply_patch

lemma additive_LLVM_major [simp]: "additive (LLVM_major_version x)"
  by (simp add: LLVM_major_version_def split: option.splits)

lemma additive_build:
  assumes "additive_env e"
  shows "additive (build e p)"
proof (cases p)
  case (PkgLLVM x)
  have "additive (LLVM_build e x)"
    unfolding LLVM_build_def LLVM_apply_patches_def LLVM_compile_def LLVM_apply_one_def
    by (simp add: additive_intros assms split: patch.splits prod.splits option.splits)
  with PkgLLVM show ?thesis by simp
next
  case (PkgLLVMBinDist x)
  then show ?thesis by (simp add: LLVMBinDist_build_def)
next
  case (PkgLibUnwind x)
  have "additive (LibUnwind_build e x)"
    unfolding LibUnwind_build_def LibUnwind_apply_patches_def LibUnwind_compile_def
      LibUnwind_apply_one_def Let_def
    by (simp add: additive_intros assms)
  with PkgLibUnwind show ?thesis by simp
next
  case (PkgGperftools x)
  have "additive (Gperftools_build e x)"
    unfolding Gperftools_build_def Gperftools_apply_patches_def Gperftools_compile_def
      Gperftools_apply_one_def Let_def
    by (simp add: additive_intros assms)
  with PkgGperftools show ?thesis by simp
qed

lemma additive_install:
  assumes "additive_env e" and "\<And>x. p \<noteq> PkgLLVMBinDist x"
  shows "additive (install e p)"
  using assms
  by (cases p)
    (auto simp: LLVM_install_def LibUnwind_install_def Gperftools_install_def
      additive_intros)

lemma additive_probes:
  assumes "additive_env e"
  shows "additive (is_fetched e p)" and "additive (is_built e p)"
    and "additive (is_installed e p)"
  by (cases p;
      simp add: LLVM_is_fetched_def LLVM_is_built_def LLVMBinDist_is_fetched_def
        LLVMBinDist_is_built_def LibUnwind_is_fetched_def LibUnwind_is_built_def
        Gperftools_is_fetched_def Gperftools_is_built_def LLVMBinDist_is_installed_def
        LibUnwind_is_installed_def Gperftools_is_installed_def LLVM_is_installed_def
        LLVM_preinstalled_def Let_def additive_intros assms split: option.splits)+

lemma additive_stage:
  assumes "additive probe" and "additive operation"
  shows "additive (stage e p force probe operation)"
  unfolding stage_def
  by (simp add: additive_intros assms)

subsection \<open>Positioning the working directory, and the stages\<close>

lemma resolve_absolute: "absolute s \<Longrightarrow> resolve d s = resolve [] s"
  by (cases s) (simp_all add: absolute_def resolve_def)

lemma absolute_nonempty: "absolute s \<Longrightarrow> s \<noteq> []"
  by (auto simp: absolute_def)

lemma map_of_dirs:
  "map_of (map (\<lambda>q. (q, Dir)) xs) q = (if q \<in> set xs then Some Dir else None)"
  by (induction xs) auto

lemma os_makedirs_Inr_files:
  assumes "os_makedirs s w = (Inr (), w')"
  shows "files w' = map (\<lambda>q. (q, Dir))
            (filter (\<lambda>q. node_at (files w) q = None) (prefixes (resolve (cwd w) s))) @ files w"
    and "\<not> list_ex (\<lambda>q. node_at (files w) q \<noteq> None \<and> node_at (files w) q \<noteq> Some Dir)
            (prefixes (resolve (cwd w) s))"
    and "cwd w' = cwd w"
proof -
  let ?bad = "list_ex (\<lambda>q. node_at (files w) q \<noteq> None \<and> node_at (files w) q \<noteq> Some Dir)
            (prefixes (resolve (cwd w) s))"
  from assms have ne: "s \<noteq> []"
    unfolding os_makedirs_def Let_def by (cases "s = []") simp_all
  with assms show nb: "\<not> ?bad"
    unfolding os_makedirs_def Let_def by (cases ?bad) simp_all
  from assms ne nb show "files w' = map (\<lambda>q. (q, Dir))
            (filter (\<lambda>q. node_at (files w) q = None) (prefixes (resolve (cwd w) s))) @ files w"
    and "cwd w' = cwd w"
    unfolding os_makedirs_def Let_def by auto
qed

lemma os_makedirs_dirs:
  assumes "os_makedirs s w = (Inr (), w')" and "prefix q (resolve (cwd w) s)"
  shows "node_at (files w') q = Some Dir"
proof -
  let ?p = "resolve (cwd w) s"
  let ?new = "map (\<lambda>q. (q, Dir)) (filter (\<lambda>q. node_at (files w) q = None) (prefixes ?p))"
  note f = os_makedirs_Inr_files(1) [OF assms(1)]
  note ok = os_makedirs_Inr_files(2) [OF assms(1)]
  from assms(2) have qin: "q \<in> set (prefixes ?p)" by (simp add: in_set_prefixes)
  show ?thesis
  proof (cases "node_at (files w) q")
    case None
    then have "q \<noteq> []" by (auto simp: node_at_def)
    moreover from None qin have "map_of ?new q = Some Dir" by (simp add: map_of_dirs)
    ultimately show ?thesis by (simp add: f node_at_def map_add_def)
  next
    case (Some n)
    from ok have "\<forall>x \<in> set (prefixes ?p).
        \<not> (node_at (files w) x \<noteq> None \<and> node_at (files w) x \<noteq> Some Dir)"
      unfolding list_ex_iff by blast
    from bspec [OF this qin] Some have d: "node_at (files w) q = Some Dir" by simp
    have "extends (files w) (?new @ files w)"
      by (rule extends_new_entries) (auto simp: node_at_def split: if_splits)
    from node_at_extends [OF this d] f show ?thesis by simp
  qed
qed

lemma os_makedirs_frame:
  "os_makedirs s w = (Inr (), w') \<Longrightarrow> cwd w' = cwd w"
  by (rule os_makedirs_Inr_files(3))

lemma goto_rootdir_Inr:
  assumes a: "absolute (pkg_path e i [])" and g: "goto_rootdir e i w = (Inr (), w')"
  shows "rooted (resolve [] (pkg_path e i [])) w'"
proof -
  let ?s = "pkg_path e i []"
  from g obtain w1 where 1: "os_makedirs ?s w = (Inr (), w1)" and 2: "os_chdir ?s w1 = (Inr (), w')"
    unfolding goto_rootdir_def by (auto elim!: seq_cases)
  have r: "resolve (cwd w) ?s = resolve [] ?s" "resolve (cwd w1) ?s = resolve [] ?s"
    by (rule resolve_absolute [OF a])+
  from os_chdir_Inr [OF 2] r have w': "cwd w' = resolve [] ?s" "files w' = files w1" by simp_all
  from os_makedirs_dirs [OF 1] r w' show ?thesis by (simp add: rooted_def)
qed

lemma goto_rootdir_rooted:
  assumes a: "absolute (pkg_path e i [])" and r: "rooted (resolve [] (pkg_path e i [])) w"
  shows "goto_rootdir e i w = (Inr (), w)"
proof -
  let ?s = "pkg_path e i []"
  let ?r = "resolve [] ?s"
  have res: "resolve (cwd w) ?s = ?r" by (rule resolve_absolute [OF a])
  from r have dirs: "\<And>q. prefix q ?r \<Longrightarrow> node_at (files w) q = Some Dir"
    and c: "cwd w = ?r" by (simp_all add: rooted_def)
  have "filter (\<lambda>q. node_at (files w) q = None) (prefixes ?r) = []"
    by (auto simp: filter_empty_conv in_set_prefixes dirs)
  moreover have "\<not> list_ex (\<lambda>q. node_at (files w) q \<noteq> None \<and> node_at (files w) q \<noteq> Some Dir)
                (prefixes ?r)"
    by (auto simp: list_ex_iff in_set_prefixes dirs)
  ultimately have 1: "os_makedirs ?s w = (Inr (), w)"
    using absolute_nonempty [OF a] by (simp add: os_makedirs_def Let_def res)
  have 2: "os_chdir ?s w = (Inr (), w)"
  proof -
    from dirs [of ?r] res have n: "node_at (files w) (resolve (cwd w) ?s) = Some Dir" by simp
    from n absolute_nonempty [OF a]
    have "os_chdir ?s w = (Inr (), w\<lparr>cwd := resolve (cwd w) ?s\<rparr>)"
      by (simp add: os_chdir_def)
    moreover from res c have "w\<lparr>cwd := resolve (cwd w) ?s\<rparr> = w" by simp
    ultimately show ?thesis by simp
  qed
  from 1 2 show ?thesis by (simp add: goto_rootdir_def seq_def bind_def)
qed

text \<open>What a stage that returns has done.\<close>

lemma stage_Inr:
  assumes a: "absolute (pkg_path e (ident p) [])"
    and s: "stage e p force probe operation w = (Inr b, w')"
  shows "\<exists>s. rooted (resolve [] (pkg_path e (ident p) [])) s \<and> probe s = (Inr True, w')"
proof -
  from s obtain s0 where g0: "goto_rootdir e (ident p) w = (Inr (), s0)"
    and rest: "bind probe (\<lambda>satisfied.
          if satisfied \<and> \<not> force then ret False
          else
            seq (block
                   [operation,
                    goto_rootdir e (ident p),
                    bind probe (\<lambda>ok. if ok then ret () else raise FatalError)])
              (ret True)) s0 = (Inr b, w')"
    unfolding stage_def by (auto elim!: seq_cases)
  from rest obtain sat s0' where p0: "probe s0 = (Inr sat, s0')"
    and k: "(if sat \<and> \<not> force then ret False
          else
            seq (block
                   [operation,
                    goto_rootdir e (ident p),
                    bind probe (\<lambda>ok. if ok then ret () else raise FatalError)])
              (ret True)) s0' = (Inr b, w')"
    by (auto elim!: bind_cases)
  show ?thesis
  proof (cases "sat \<and> \<not> force")
    case True
    with k have "w' = s0'" by (simp add: ret_def)
    with p0 True goto_rootdir_Inr [OF a g0] show ?thesis by auto
  next
    case False
    with k obtain s1 s2 where "operation s0' = (Inr (), s1)"
      and g2: "goto_rootdir e (ident p) s1 = (Inr (), s2)"
      and p2: "bind probe (\<lambda>ok. if ok then ret () else raise FatalError) s2 = (Inr (), w')"
      by (auto simp: ret_def elim!: seq_cases)
    from p2 have "probe s2 = (Inr True, w')"
      by (auto simp: ret_def raise_def elim!: bind_cases split: if_splits)
    with goto_rootdir_Inr [OF a g2] show ?thesis by auto
  qed
qed

text \<open>A stage whose probe holds at the package directory is not invoked.\<close>

lemma stage_skipped:
  assumes a: "absolute (pkg_path e (ident p) [])"
    and r: "rooted (resolve [] (pkg_path e (ident p) [])) w"
    and pr: "probe w = (Inr True, w')"
  shows "stage e p False probe operation w = (Inr False, w')"
  using goto_rootdir_rooted [OF a r] pr
  by (simp add: stage_def seq_def bind_def ret_def)

lemma os_path_exists_eq [simp]:
  "os_path_exists s w = (Inr (path_exists (files w) (cwd w) s), w)"
  by (simp add: os_path_exists_def reads_def)

lemma is_fetched_eq: "is_fetched e p = os_path_exists ''src''"
  by (cases p)
    (simp_all add: LLVM_is_fetched_def LLVMBinDist_is_fetched_def LibUnwind_is_fetched_def
      Gperftools_is_fetched_def)

lemma is_built_eq:
  "\<exists>m. is_built e p = os_path_exists m \<or> is_built e p = ret True"
  by (cases p)
    (auto simp: LLVM_is_built_def LLVMBinDist_is_built_def LibUnwind_is_built_def
      Gperftools_is_built_def)

lemma is_installed_frame:
  assumes "quiet_probe e"
  shows "files (snd (is_installed e p w)) = files w \<and> cwd (snd (is_installed e p w)) = cwd w
         \<and> store (snd (is_installed e p w)) = store w"
  using assms
  by (cases p)
    (simp_all add: LLVM_is_installed_frame LLVMBinDist_is_installed_def
      LibUnwind_is_installed_def Gperftools_is_installed_def quiet_probe_def)

lemma is_installed_reads:
  assumes "files v = files w" and "cwd v = cwd w" and "store v = store w"
  shows "fst (is_installed e p v) = fst (is_installed e p w)"
  using assms
  by (cases p)
    (simp_all add: LLVM_is_installed_result LLVMBinDist_is_installed_def
      LibUnwind_is_installed_def Gperftools_is_installed_def)

lemma rooted_cong:
  "rooted r s \<Longrightarrow> cwd w = cwd s \<Longrightarrow> files w = files s \<Longrightarrow> rooted r w"
  by (simp add: rooted_def)

lemma rooted_extends:
  "rooted r s \<Longrightarrow> cwd w = r \<Longrightarrow> extends (files s) (files w) \<Longrightarrow> rooted r w"
  by (auto simp: rooted_def dest: node_at_extends)

lemma run_stages_Inr:
  assumes "run_stages e p ff fb fi w = (Inr r, w1)"
  obtains a wa b wb c where "stage e p ff (is_fetched e p) (fetch e p) w = (Inr a, wa)"
    and "stage e p fb (is_built e p) (build e p) wa = (Inr b, wb)"
    and "stage e p fi (is_installed e p) (install e p) wb = (Inr c, w1)"
    and "r = (a, b, c)"
  using assms unfolding run_stages_def by (auto simp: ret_def elim!: bind_cases)

lemma second_run_skips:
  assumes abs: "absolute (pkg_path e (ident p) [])" and add: "additive_env e"
    and quiet: "quiet_probe e" and nb: "\<And>x. p \<noteq> PkgLLVMBinDist x"
    and run: "run_stages e p ff fb fi w = (Inr r, w1)"
  shows "fst (run_stages e p False False False w1) = Inr (False, False, False)"
proof -
  let ?R = "resolve [] (pkg_path e (ident p) [])"
  from run obtain a wa b wb c
    where sa: "stage e p ff (is_fetched e p) (fetch e p) w = (Inr a, wa)"
      and sb: "stage e p fb (is_built e p) (build e p) wa = (Inr b, wb)"
      and sc: "stage e p fi (is_installed e p) (install e p) wb = (Inr c, w1)"
    by (rule run_stages_Inr)
  \<comment> \<open>after the fetch stage\<close>
  from stage_Inr [OF abs sa] obtain s_a
    where ra: "rooted ?R s_a" and pa: "is_fetched e p s_a = (Inr True, wa)" by blast
  from pa ra have fa: "path_exists (files wa) ?R ''src''"
    by (auto simp: is_fetched_eq rooted_def)
  \<comment> \<open>after the build stage\<close>
  from stage_Inr [OF abs sb] obtain s_b
    where rb: "rooted ?R s_b" and pb: "is_built e p s_b = (Inr True, wb)" by blast
  have eab: "extends (files wa) (files wb)"
    by (rule additiveD [OF additive_stage [OF additive_probes(2) additive_build] sb])
      (rule add)+
  from is_built_eq [of e p] obtain m
    where m: "is_built e p = os_path_exists m \<or> is_built e p = ret True" by blast
  from pb rb m have wb: "wb = s_b" by (auto simp: ret_def)
  have built_later: "is_built e p v = (Inr True, v)"
    if "cwd v = ?R" and "extends (files wb) (files v)" for v
    using m
  proof
    assume o: "is_built e p = os_path_exists m"
    with pb wb rb have "path_exists (files wb) ?R m" by (auto simp: rooted_def)
    from path_exists_extends [OF that(2) this] o that(1) show ?thesis by simp
  next
    assume "is_built e p = ret True"
    then show ?thesis by (simp add: ret_def)
  qed
  \<comment> \<open>after the install stage\<close>
  from stage_Inr [OF abs sc] obtain s_c
    where rc: "rooted ?R s_c" and pc: "is_installed e p s_c = (Inr True, w1)" by blast
  have ebc: "extends (files wb) (files w1)"
    by (rule additiveD [OF additive_stage [OF additive_probes(3) additive_install] sc])
      (rule add nb)+
  from is_installed_frame [OF quiet, of p s_c] pc
  have same: "files w1 = files s_c" "cwd w1 = cwd s_c" "store w1 = store s_c" by simp_all
  from rooted_cong [OF rc same(2) same(1)] have r1: "rooted ?R w1" .
  then have c1: "cwd w1 = ?R" by (simp add: rooted_def)
  \<comment> \<open>the second run\<close>
  from path_exists_extends [OF extends_trans [OF eab ebc] fa] c1
  have "is_fetched e p w1 = (Inr True, w1)" by (simp add: is_fetched_eq)
  from stage_skipped [where probe = "is_fetched e p", OF abs r1 this]
  have 1: "stage e p False (is_fetched e p) (fetch e p) w1 = (Inr False, w1)" .
  from stage_skipped [where probe = "is_built e p", OF abs r1 built_later [OF c1 ebc]]
  have 2: "stage e p False (is_built e p) (build e p) w1 = (Inr False, w1)" .
  obtain w2 where w2: "is_installed e p w1 = (fst (is_installed e p w1), w2)"
    by (cases "is_installed e p w1") simp
  from is_installed_reads [OF same, of e p] pc have "fst (is_installed e p w1) = Inr True"
    by simp
  with w2 have "is_installed e p w1 = (Inr True, w2)" by simp
  from stage_skipped [where probe = "is_installed e p", OF abs r1 this]
  have 3: "stage e p False (is_installed e p) (install e p) w1 = (Inr False, w2)" .
  from 1 2 3 show ?thesis by (simp add: run_stages_def bind_def ret_def)
qed

subsection \<open>\<open>LLVMBinDist.install\<close> moves the fetched tree\<close>

lemma stage_invoked:
  assumes "stage e p force probe operation w = (Inr True, w')"
  obtains s0 sat s0' s1 s2 where "goto_rootdir e (ident p) w = (Inr (), s0)"
    and "probe s0 = (Inr sat, s0')" and "operation s0' = (Inr (), s1)"
    and "goto_rootdir e (ident p) s1 = (Inr (), s2)" and "probe s2 = (Inr True, w')"
proof -
  from assms obtain s0 where g0: "goto_rootdir e (ident p) w = (Inr (), s0)"
    and rest: "bind probe (\<lambda>satisfied.
          if satisfied \<and> \<not> force then ret False
          else
            seq (block
                   [operation,
                    goto_rootdir e (ident p),
                    bind probe (\<lambda>ok. if ok then ret () else raise FatalError)])
              (ret True)) s0 = (Inr True, w')"
    unfolding stage_def by (auto elim!: seq_cases)
  from rest obtain sat s0' where p0: "probe s0 = (Inr sat, s0')"
    and k: "(if sat \<and> \<not> force then ret False
          else
            seq (block
                   [operation,
                    goto_rootdir e (ident p),
                    bind probe (\<lambda>ok. if ok then ret () else raise FatalError)])
              (ret True)) s0' = (Inr True, w')"
    by (auto elim!: bind_cases)
  from k have nf: "\<not> (sat \<and> \<not> force)" by (auto simp: ret_def split: if_splits)
  with k obtain s1 s2 where o: "operation s0' = (Inr (), s1)"
    and g2: "goto_rootdir e (ident p) s1 = (Inr (), s2)"
    and p2: "bind probe (\<lambda>ok. if ok then ret () else raise FatalError) s2 = (Inr (), w')"
    by (auto simp: ret_def elim!: seq_cases)
  from p2 have "probe s2 = (Inr True, w')"
    by (auto simp: ret_def raise_def elim!: bind_cases split: if_splits)
  with g0 p0 o g2 show thesis by (rule that)
qed

lemma rename_tree_source_gone:
  assumes "\<not> prefix b a"
  shows "map_of (rename_tree f a b) a = None"
proof -
  have "a \<notin> fst ` set (rename_tree f a b)"
  proof
    assume "a \<in> fst ` set (rename_tree f a b)"
    then consider k where "a = b @ drop (length a) k" | "\<not> prefix a a"
      by (auto simp: rename_tree_def)
    then show False using assms by cases (metis prefixI, simp)
  qed
  then show ?thesis by (simp add: map_of_eq_None_iff)
qed

lemma resolve_no_slash:
  assumes "CHR ''/'' \<notin> set t"
  shows "resolve c t = c \<or> resolve c t = butlast c \<or> resolve c t = c @ [t]"
proof (cases t)
  case Nil
  then show ?thesis by (simp add: resolve_def push_component_def)
next
  case (Cons x xs)
  with assms have "x \<noteq> CHR ''/''" by auto
  with Cons py_split_no_sep [OF assms] show ?thesis
    by (simp add: resolve_def push_component_def)
qed

lemma shutil_move_Inr:
  assumes "shutil_move src dst w = (Inr (), w')"
  shows "cwd w' = cwd w"
    and "\<exists>b. \<not> prefix (resolve (cwd w) src) b
             \<and> (b = resolve (cwd w) dst \<or> b = resolve (cwd w) dst @ [last (resolve (cwd w) src)])
             \<and> files w' = rename_tree (files w) (resolve (cwd w) src) b"
proof -
  let ?a = "resolve (cwd w) src"
  let ?d = "resolve (cwd w) dst"
  define b where "b = (if dst \<noteq> [] \<and> node_at (files w) ?d = Some Dir then ?d @ [last ?a] else ?d)"
  from assms have np: "\<not> prefix ?a b"
    unfolding shutil_move_def Let_def b_def [symmetric] by (auto split: if_splits)
  from assms have w': "w' = w\<lparr>files := rename_tree (files w) ?a b\<rparr>"
    unfolding shutil_move_def Let_def b_def [symmetric] by (auto split: if_splits)
  from w' show "cwd w' = cwd w" by simp
  have "b = ?d \<or> b = ?d @ [last ?a]" by (simp add: b_def)
  with np w' show "\<exists>b. \<not> prefix ?a b \<and> (b = ?d \<or> b = ?d @ [last ?a])
      \<and> files w' = rename_tree (files w) ?a b" by auto
qed

lemma LLVMBinDist_link_keeps:
  assumes l: "LLVMBinDist_link x name s = (r, s')"
    and ns: "CHR ''/'' \<notin> set (name @ bin_suffix x)"
    and gone: "map_of (files s) a = None"
    and na: "a \<noteq> cwd s" "a \<noteq> butlast (cwd s)" "a \<noteq> cwd s @ [name @ bin_suffix x]"
  shows "cwd s' = cwd s \<and> map_of (files s') a = None"
proof -
  from resolve_no_slash [OF ns, of "cwd s"] na
  have "resolve (cwd s) (name @ bin_suffix x) \<noteq> a" by auto
  with l gone show ?thesis
    by (auto simp: LLVMBinDist_link_def Let_def if_do_def ret_def log_debug_def seq_def bind_def
        os_symlink_def split: if_splits)
qed

lemma LLVMBinDist_links_keep:
  assumes l: "for_each names (LLVMBinDist_link x) s = (r, s')"
    and ns: "CHR ''/'' \<notin> set (bin_suffix x)" "\<forall>n \<in> set names. CHR ''/'' \<notin> set n"
    and gone: "map_of (files s) a = None"
    and na: "a \<noteq> cwd s" "a \<noteq> butlast (cwd s)" "length a \<noteq> Suc (length (cwd s))"
  shows "map_of (files s') a = None"
  using l ns(2) gone na
proof (induction names arbitrary: s)
  case Nil
  then show ?case by (simp add: ret_def)
next
  case (Cons n names)
  from Cons.prems(2) ns(1) have sl: "CHR ''/'' \<notin> set (n @ bin_suffix x)" by simp
  from Cons.prems(6) have ne: "a \<noteq> cwd s @ [n @ bin_suffix x]" by auto
  from Cons.prems(1) have "seq (LLVMBinDist_link x n) (for_each names (LLVMBinDist_link x)) s
      = (r, s')" by simp
  then show ?case
  proof (cases rule: seq_cases)
    case (err y)
    from LLVMBinDist_link_keeps [OF err(1) sl Cons.prems(3,4,5) ne] show ?thesis by simp
  next
    case (ok s1)
    from LLVMBinDist_link_keeps [OF ok(1) sl Cons.prems(3,4,5) ne]
    have k: "cwd s1 = cwd s" "map_of (files s1) a = None" by simp_all
    from Cons.prems(2) have "\<forall>n \<in> set names. CHR ''/'' \<notin> set n" by simp
    from Cons.IH [OF ok(2) this k(2)] Cons.prems(4,5,6) k(1) show ?thesis by simp
  qed
qed

lemma LLVMBinDist_install_moves_src:
  assumes i: "LLVMBinDist_install e x s = (Inr (), s1)"
    and ns: "CHR ''/'' \<notin> set (bin_suffix x)"
  shows "map_of (files s1) (cwd s @ [''src'']) = None"
proof -
  let ?a = "cwd s @ [''src'']"
  from i obtain v1 v2 where 1: "shutil_move ''src'' ''install'' s = (Inr (), v1)"
    and 2: "os_chdir ''install/bin'' v1 = (Inr (), v2)"
    and 3: "if_do (bin_suffix x \<noteq> [])
              (for_each [''clang'', ''clang++'', ''opt'', ''llvm-config''] (LLVMBinDist_link x)) v2
            = (Inr (), s1)"
    unfolding LLVMBinDist_install_def by (rule block3_Inr)
  have rs: "resolve (cwd s) ''src'' = ?a" by simp
  have ri: "resolve (cwd s) ''install'' = cwd s @ [''install'']"
    by (simp add: resolve_def push_component_def)
  from shutil_move_Inr [OF 1] rs ri obtain b where c1: "cwd v1 = cwd s"
    and b: "b = cwd s @ [''install''] \<or> b = cwd s @ [''install'', ''src'']"
    and f1: "files v1 = rename_tree (files s) ?a b" by auto
  from b have "\<not> prefix b ?a" by auto
  from rename_tree_source_gone [OF this] f1 have g1: "map_of (files v1) ?a = None" by simp
  from os_chdir_Inr [OF 2] c1 have c2: "cwd v2 = cwd s @ [''install'', ''bin'']"
    and f2: "files v2 = files v1"
    by (simp_all add: resolve_def push_component_def)
  show ?thesis
  proof (cases "bin_suffix x = []")
    case True
    with 3 g1 f2 show ?thesis by (simp add: if_do_def ret_def)
  next
    case False
    with 3 have l: "for_each [''clang'', ''clang++'', ''opt'', ''llvm-config'']
        (LLVMBinDist_link x) v2 = (Inr (), s1)" by (simp add: if_do_def)
    have n: "\<forall>n \<in> set [''clang'', ''clang++'', ''opt'', ''llvm-config'']. CHR ''/'' \<notin> set n"
      by simp
    from g1 f2 have g2: "map_of (files v2) ?a = None" by simp
    from c2 have d: "?a \<noteq> cwd v2" "?a \<noteq> butlast (cwd v2)"
      "length ?a \<noteq> Suc (length (cwd v2))" by (simp_all add: butlast_append)
    show ?thesis by (rule LLVMBinDist_links_keep [OF l ns n g2 d])
  qed
qed

lemma goto_rootdir_keeps_absent:
  assumes a: "absolute (pkg_path e i [])" and g: "goto_rootdir e i w = (Inr (), w')"
    and n: "map_of (files w) q = None" and np: "\<not> prefix q (resolve [] (pkg_path e i []))"
  shows "map_of (files w') q = None"
proof -
  let ?s = "pkg_path e i []"
  from g obtain w1 where 1: "os_makedirs ?s w = (Inr (), w1)" and 2: "os_chdir ?s w1 = (Inr (), w')"
    unfolding goto_rootdir_def by (auto elim!: seq_cases)
  have r: "resolve (cwd w) ?s = resolve [] ?s" by (rule resolve_absolute [OF a])
  from os_makedirs_Inr_files(1) [OF 1] r n np have "map_of (files w1) q = None"
    by (simp add: map_add_def map_of_dirs in_set_prefixes)
  with os_chdir_Inr [OF 2] show ?thesis by simp
qed

lemma bindist_after_install:
  assumes abs: "absolute (pkg_path e (LLVMBinDist_ident x) [])"
    and ns: "CHR ''/'' \<notin> set (bin_suffix x)"
    and run: "run_stages e (PkgLLVMBinDist x) ff fb fi w = (Inr (a, b, True), w1)"
  shows "fst (seq (goto_rootdir e (LLVMBinDist_ident x)) (is_fetched e (PkgLLVMBinDist x)) w1)
           = Inr False"
    and "fst (seq (goto_rootdir e (LLVMBinDist_ident x)) (is_built e (PkgLLVMBinDist x)) w1)
           = Inr True"
    and "fst (seq (goto_rootdir e (LLVMBinDist_ident x)) (is_installed e (PkgLLVMBinDist x)) w1)
           = Inr True"
    and "fst (stage e (PkgLLVMBinDist x) False (is_fetched e (PkgLLVMBinDist x))
                (fetch e (PkgLLVMBinDist x)) w1) \<noteq> Inr False"
proof -
  let ?p = "PkgLLVMBinDist x"
  let ?R = "resolve [] (pkg_path e (LLVMBinDist_ident x) [])"
  have abs': "absolute (pkg_path e (ident ?p) [])" using abs by simp
  from run obtain wb where sc: "stage e ?p fi (is_installed e ?p) (install e ?p) wb = (Inr True, w1)"
    by (auto elim!: run_stages_Inr)
  from sc obtain s0 sat s0' s1 s2 where g0: "goto_rootdir e (ident ?p) wb = (Inr (), s0)"
    and p0: "is_installed e ?p s0 = (Inr sat, s0')"
    and op: "install e ?p s0' = (Inr (), s1)"
    and g2: "goto_rootdir e (ident ?p) s1 = (Inr (), s2)"
    and p2: "is_installed e ?p s2 = (Inr True, w1)"
    by (rule stage_invoked)
  from goto_rootdir_Inr [OF abs' g0] p0 have c0: "cwd s0' = ?R"
    by (auto simp: LLVMBinDist_is_installed_def rooted_def)
  from op have "LLVMBinDist_install e x s0' = (Inr (), s1)" by simp
  from LLVMBinDist_install_moves_src [OF this ns] c0
  have "map_of (files s1) (?R @ [''src'']) = None" by simp
  from goto_rootdir_keeps_absent [OF abs' g2 this]
  have "map_of (files s2) (?R @ [''src'']) = None" by simp
  moreover from p2 have w1: "w1 = s2" and inst: "path_exists (files s2) (cwd s2) ''install''"
    by (auto simp: LLVMBinDist_is_installed_def)
  moreover note r1 = goto_rootdir_Inr [OF abs' g2]
  ultimately have gone: "map_of (files w1) (?R @ [''src'']) = None" and r: "rooted ?R w1"
    by simp_all
  from r have c: "cwd w1 = ?R" by (simp add: rooted_def)
  note g = goto_rootdir_rooted [OF abs r]
  from gone c have nf: "\<not> path_exists (files w1) (cwd w1) ''src''"
    by (simp add: path_exists_def node_at_def)
  from g nf show "fst (seq (goto_rootdir e (LLVMBinDist_ident x)) (is_fetched e ?p) w1) = Inr False"
    by (simp add: seq_def bind_def LLVMBinDist_is_fetched_def)
  from g show "fst (seq (goto_rootdir e (LLVMBinDist_ident x)) (is_built e ?p) w1) = Inr True"
    by (simp add: seq_def bind_def LLVMBinDist_is_built_def ret_def)
  from g inst w1
  show "fst (seq (goto_rootdir e (LLVMBinDist_ident x)) (is_installed e ?p) w1) = Inr True"
    by (simp add: seq_def bind_def LLVMBinDist_is_installed_def)
  from g nf show "fst (stage e ?p False (is_fetched e ?p) (fetch e ?p) w1) \<noteq> Inr False"
    by (auto simp: stage_def seq_def bind_def ret_def LLVMBinDist_is_fetched_def
        split: prod.splits sum.splits)
qed

lemma extends_append: "extends f (f @ g)"
  by (simp add: extends_def map_add_def)

lemma bindist_first_run:
  "fst (run_stages env_bindist (PkgLLVMBinDist bindist7) False True False world_fresh)
     = Inr (True, True, True)"
  by code_simp

lemma libunwind_first_run:
  "fst (run_stages env_make (PkgLibUnwind libunwind_14) False False False world_fresh)
     = Inr (True, True, True)"
  by code_simp

section \<open>Configure and the flag lists\<close>

text \<open>
  C1, as stated: every configure keeps each flag that was in \<open>cflags\<close>, \<open>cxxflags\<close> and
  \<open>ldflags\<close>, in the same relative order. \<open>LLVM.configure\<close> assigns the empty list to
  all three, so a context that already carries \<open>-O2\<close> loses it: the old \<open>cflags\<close> is
  no subsequence of the new one.
\<close>

theorem C1_llvm_configure_resets_flags:
  "\<not> subseq (cflags ctx_O2) (cflags (LLVM_configure ctx_O2))"
  by (simp add: ctx_O2_def LLVM_configure_def)

text \<open>
  C1, amended: \<open>LibUnwind.configure\<close> and \<open>Gperftools.configure\<close> only append (the old
  list is a prefix of the new one, for each of the three lists), while
  \<open>LLVM.configure\<close> sets the five toolchain program names and leaves all three flag
  lists empty.
\<close>

theorem C1_configure_appends_except_llvm:
  "prefix (cflags c) (cflags (LibUnwind_configure e u c))
   \<and> prefix (cxxflags c) (cxxflags (LibUnwind_configure e u c))
   \<and> prefix (ldflags c) (ldflags (LibUnwind_configure e u c))
   \<and> prefix (cflags c) (cflags (Gperftools_configure e g c))
   \<and> prefix (cxxflags c) (cxxflags (Gperftools_configure e g c))
   \<and> prefix (ldflags c) (ldflags (Gperftools_configure e g c))
   \<and> cflags (LLVM_configure c) = []
   \<and> cxxflags (LLVM_configure c) = []
   \<and> ldflags (LLVM_configure c) = []"
  by (simp add: LibUnwind_configure_def Gperftools_configure_def LLVM_configure_def Let_def)

section \<open>A second run\<close>

text \<open>
  C2, as stated: after a run in which fetch, build and install were all invoked and
  their probes held, a second run with no force flags invokes none of them. For
  \<open>LLVMBinDist\<close>, started in an empty file system, the first run below invokes all
  three stages (build is forced, since \<open>is_built\<close> is constantly true) and the second
  run invokes fetch again, because \<open>install\<close> has moved \<open>src\<close> to \<open>install\<close>. The
  same happens when the first run forces nothing: it invokes fetch and install, and
  the second run invokes fetch.
\<close>

theorem C2_bindist_refetches:
  "fst (bind (run_stages env_bindist (PkgLLVMBinDist bindist7) False True False) (\<lambda>first.
          bind (run_stages env_bindist (PkgLLVMBinDist bindist7) False False False) (\<lambda>second.
            ret (first, second))) world_fresh)
     = Inr ((True, True, True), (True, False, False))
   \<and> fst (bind (run_stages env_bindist (PkgLLVMBinDist bindist7) False False False) (\<lambda>first.
          bind (run_stages env_bindist (PkgLLVMBinDist bindist7) False False False) (\<lambda>second.
            ret (first, second))) world_fresh)
     = Inr ((True, False, True), (True, False, False))"
  by code_simp

text \<open>
  C2, amended: let the package path be absolute and a run of the stages succeed.

  For \<open>LLVM\<close>, \<open>LibUnwind\<close> and \<open>Gperftools\<close>, a second run with no force flags
  invokes neither fetch nor build nor install, provided the environment is additive (no
  external command or patch removes or replaces an existing file or directory) and the
  \<open>llvm-config --version\<close> probe changes no file.

  For \<open>LLVMBinDist\<close> (with a \<open>bin_suffix\<close> free of slashes), after a run that invoked
  install, \<open>is_built\<close> and \<open>is_installed\<close> hold at the package directory but
  \<open>is_fetched\<close> does not, and the fetch stage of a second run with no force flags is
  invoked again.
\<close>

theorem C2_second_run:
  "absolute (pkg_path e (ident p) []) \<Longrightarrow>
   run_stages e p ff fb fi w = (Inr (a, b, c), w1) \<Longrightarrow>
     ((\<forall>x. p \<noteq> PkgLLVMBinDist x) \<and> additive_env e \<and> quiet_probe e
        \<longrightarrow> fst (run_stages e p False False False w1) = Inr (False, False, False))
     \<and> ((\<exists>x. p = PkgLLVMBinDist x \<and> CHR ''/'' \<notin> set (bin_suffix x)) \<and> c
        \<longrightarrow> fst (seq (goto_rootdir e (ident p)) (is_fetched e p) w1) = Inr False
          \<and> fst (seq (goto_rootdir e (ident p)) (is_built e p) w1) = Inr True
          \<and> fst (seq (goto_rootdir e (ident p)) (is_installed e p) w1) = Inr True
          \<and> fst (stage e p False (is_fetched e p) (fetch e p) w1) \<noteq> Inr False)"
proof (intro conjI impI)
  assume abs: "absolute (pkg_path e (ident p) [])"
    and run: "run_stages e p ff fb fi w = (Inr (a, b, c), w1)"
    and h: "(\<forall>x. p \<noteq> PkgLLVMBinDist x) \<and> additive_env e \<and> quiet_probe e"
  from h have "\<And>x. p \<noteq> PkgLLVMBinDist x" "additive_env e" "quiet_probe e" by simp_all
  from second_run_skips [OF abs this(2,3,1) run]
  show "fst (run_stages e p False False False w1) = Inr (False, False, False)" .
next
  assume abs: "absolute (pkg_path e (ident p) [])"
    and run: "run_stages e p ff fb fi w = (Inr (a, b, c), w1)"
    and h: "(\<exists>x. p = PkgLLVMBinDist x \<and> CHR ''/'' \<notin> set (bin_suffix x)) \<and> c"
  then obtain x where p: "p = PkgLLVMBinDist x" and ns: "CHR ''/'' \<notin> set (bin_suffix x)"
    and c: "c" by blast
  from abs p have abs': "absolute (pkg_path e (LLVMBinDist_ident x) [])" by simp
  from run p c have run': "run_stages e (PkgLLVMBinDist x) ff fb fi w = (Inr (a, b, True), w1)"
    by simp
  note r = bindist_after_install [OF abs' ns run']
  from r(1) p show "fst (seq (goto_rootdir e (ident p)) (is_fetched e p) w1) = Inr False"
    by simp
  from r(2) p show "fst (seq (goto_rootdir e (ident p)) (is_built e p) w1) = Inr True"
    by simp
  from r(3) p show "fst (seq (goto_rootdir e (ident p)) (is_installed e p) w1) = Inr True"
    by simp
  from r(4) p show "fst (stage e p False (is_fetched e p) (fetch e p) w1) \<noteq> Inr False"
    by simp
qed

theorem C2_second_run_witness:
  "absolute (pkg_path env_make (ident (PkgLibUnwind libunwind_14)) [])
   \<and> additive_env env_make \<and> quiet_probe env_make
   \<and> fst (run_stages env_make (PkgLibUnwind libunwind_14) False False False world_fresh)
       = Inr (True, True, True)
   \<and> fst (run_stages env_make (PkgLibUnwind libunwind_14) False False False
        (snd (run_stages env_make (PkgLibUnwind libunwind_14) False False False world_fresh)))
       = Inr (False, False, False)
   \<and> absolute (pkg_path env_bindist (ident (PkgLLVMBinDist bindist7)) [])
   \<and> CHR ''/'' \<notin> set (bin_suffix bindist7)
   \<and> fst (run_stages env_bindist (PkgLLVMBinDist bindist7) False True False world_fresh)
       = Inr (True, True, True)
   \<and> fst (seq (goto_rootdir env_bindist (ident (PkgLLVMBinDist bindist7)))
        (is_fetched env_bindist (PkgLLVMBinDist bindist7))
        (snd (run_stages env_bindist (PkgLLVMBinDist bindist7) False True False world_fresh)))
       = Inr False
   \<and> fst (seq (goto_rootdir env_bindist (ident (PkgLLVMBinDist bindist7)))
        (is_installed env_bindist (PkgLLVMBinDist bindist7))
        (snd (run_stages env_bindist (PkgLLVMBinDist bindist7) False True False world_fresh)))
       = Inr True"
proof -
  let ?u = "PkgLibUnwind libunwind_14"
  let ?d = "PkgLLVMBinDist bindist7"
  have a1: "absolute (pkg_path env_make (ident ?u) [])"
    by (simp add: absolute_def env_make_def)
  have a2: "absolute (pkg_path env_bindist (ident ?d) [])"
    by (simp add: absolute_def env_bindist_def)
  have add: "additive_env env_make"
    by (simp add: additive_env_def env_make_def extends_append)
  have quiet: "quiet_probe env_make"
    by (simp add: quiet_probe_def env_make_def)
  have ns: "CHR ''/'' \<notin> set (bin_suffix bindist7)"
    by (simp add: bindist7_def)
  have r1: "run_stages env_make ?u False False False world_fresh
      = (Inr (True, True, True), snd (run_stages env_make ?u False False False world_fresh))"
    using libunwind_first_run by (simp add: prod_eq_iff)
  have r2: "run_stages env_bindist ?d False True False world_fresh
      = (Inr (True, True, True), snd (run_stages env_bindist ?d False True False world_fresh))"
    using bindist_first_run by (simp add: prod_eq_iff)
  from C2_second_run [OF a1 r1] add quiet
  have c1: "fst (run_stages env_make ?u False False False
        (snd (run_stages env_make ?u False False False world_fresh)))
       = Inr (False, False, False)" by simp
  from C2_second_run [OF a2 r2] ns
  have c2: "fst (seq (goto_rootdir env_bindist (ident ?d)) (is_fetched env_bindist ?d)
        (snd (run_stages env_bindist ?d False True False world_fresh))) = Inr False"
    and c3: "fst (seq (goto_rootdir env_bindist (ident ?d)) (is_installed env_bindist ?d)
        (snd (run_stages env_bindist ?d False True False world_fresh))) = Inr True"
    by simp_all
  from a1 a2 add quiet ns libunwind_first_run bindist_first_run c1 c2 c3
  show ?thesis by blast
qed

section \<open>Identifiers\<close>

text \<open>
  C3, as stated: instances that differ in a variant-affecting construction parameter
  have different identifiers. Two \<open>LLVM\<close> instances of version 7.0.0 that differ in
  \<open>compiler_rt\<close> have the same identifier \<open>llvm-7.0.0\<close>.
\<close>

theorem C3_compiler_rt_not_in_ident:
  "compiler_rt llvm_with_rt \<noteq> compiler_rt llvm_without_rt
   \<and> LLVM_ident llvm_with_rt = LLVM_ident llvm_without_rt"
  by (simp add: llvm_with_rt_def llvm_without_rt_def LLVM_init_def LLVM_ident_def)

text \<open>
  C3, amended: the identifier is the family prefix followed by the version (for
  \<open>Gperftools\<close> the commit; for \<open>LLVM\<close> with \<open>-lld\<close> appended when \<open>lld\<close> is set)
  and nothing else. Within a family two identifiers are equal exactly when the versions
  (commits) are, for \<open>LLVM\<close> among instances with the same \<open>lld\<close> setting; identifiers
  of different families never coincide. The parameters \<open>compiler_rt\<close>, \<open>commit\<close>,
  \<open>patches\<close> and \<open>build_flags\<close> of \<open>LLVM\<close>, \<open>libunwind_version\<close> and \<open>patches\<close> of
  \<open>Gperftools\<close>, and \<open>target\<close> and \<open>bin_suffix\<close> of \<open>LLVMBinDist\<close> do not enter it.
\<close>

theorem C3_ident_is_family_and_version:
  "(lld a = lld b \<longrightarrow> (LLVM_ident a = LLVM_ident b \<longleftrightarrow> LLVM.version a = LLVM.version b))
   \<and> (Gperftools_ident g = Gperftools_ident g' \<longleftrightarrow> Gperftools.commit g = Gperftools.commit g')
   \<and> (LibUnwind_ident u = LibUnwind_ident u' \<longleftrightarrow> LibUnwind.version u = LibUnwind.version u')
   \<and> (LLVMBinDist_ident d = LLVMBinDist_ident d'
        \<longleftrightarrow> LLVMBinDist.version d = LLVMBinDist.version d')
   \<and> LLVM_ident a \<noteq> LLVMBinDist_ident d \<and> LLVM_ident a \<noteq> LibUnwind_ident u
   \<and> LLVM_ident a \<noteq> Gperftools_ident g \<and> LLVMBinDist_ident d \<noteq> LibUnwind_ident u
   \<and> LLVMBinDist_ident d \<noteq> Gperftools_ident g \<and> LibUnwind_ident u \<noteq> Gperftools_ident g"
  by (simp add: LLVM_ident_def Gperftools_ident_def LibUnwind_ident_def LLVMBinDist_ident_def)

theorem C3_ident_is_family_and_version_witness:
  "lld llvm_with_rt = lld llvm_without_rt
   \<and> LLVM.version llvm_with_rt = LLVM.version llvm_without_rt
   \<and> LLVM_ident llvm_with_rt = LLVM_ident llvm_without_rt
   \<and> Gperftools_ident (Gperftools_init ''2.9'' ''1.4-rc1'' [])
       = Gperftools_ident (Gperftools_init ''2.9'' ''1.5'' [''fix''])
   \<and> Gperftools_ident (Gperftools_init ''2.9'' ''1.4-rc1'' [])
       \<noteq> Gperftools_ident (Gperftools_init ''2.10'' ''1.4-rc1'' [])"
  using C3_ident_is_family_and_version [of llvm_with_rt llvm_without_rt
      "Gperftools_init ''2.9'' ''1.4-rc1'' []" "Gperftools_init ''2.9'' ''1.5'' [''fix'']"]
    C3_ident_is_family_and_version [of llvm_with_rt llvm_without_rt
      "Gperftools_init ''2.9'' ''1.4-rc1'' []" "Gperftools_init ''2.10'' ''1.4-rc1'' []"]
  by (simp add: llvm_with_rt_def llvm_without_rt_def LLVM_init_def Gperftools_init_def)

section \<open>Patches are applied by build\<close>

text \<open>
  C4: for every package, whatever the outcome of \<open>build\<close>, the external calls it
  makes are a block of \<open>apply_patch\<close> calls followed by process runs only, so no patch
  is applied once a compile step has run; if any compile step ran, or the build
  succeeded, the block of patch calls is exactly the declared patch list, in order. The
  \<open>fetch\<close> operation makes no \<open>apply_patch\<close> call.
\<close>

theorem C4_patches_before_compile:
  "list_all is_run (dropWhile is_patch (new_events w (snd (build e p w))))
   \<and> (dropWhile is_patch (new_events w (snd (build e p w))) \<noteq> [] \<or> fst (build e p w) = Inr ()
        \<longrightarrow> map fst (patch_args (takeWhile is_patch (new_events w (snd (build e p w)))))
              = declared_patches e (store w) p)
   \<and> list_all (\<lambda>ev. \<not> is_patch ev) (new_events w (snd (fetch e p w)))"
proof -
  have fetch_part: "list_all (\<lambda>ev. \<not> is_patch ev) (new_events w (snd (fetch e p w)))"
    using emits_fetch [of e p] by (auto simp: emits_def dest: spec [of _ w])
  have build_part: "list_all is_run (dropWhile is_patch (new_events w (snd (build e p w))))
   \<and> (dropWhile is_patch (new_events w (snd (build e p w))) \<noteq> [] \<or> fst (build e p w) = Inr ()
        \<longrightarrow> map fst (patch_args (takeWhile is_patch (new_events w (snd (build e p w)))))
              = declared_patches e (store w) p)"
  proof (cases p)
    case (PkgLLVM x)
    show ?thesis
    proof (cases rule: LLVM_major_version_cases [of x])
      case bad
      with PkgLLVM show ?thesis by (simp add: LLVM_build_def bind_def raise_def)
    next
      case (ok mv)
      obtain r w' where rw: "seq (LLVM_apply_patches e x) (LLVM_compile e x mv) w = (r, w')"
        by (cases "seq (LLVM_apply_patches e x) (LLVM_compile e x mv) w")
      have "\<And>w1. LLVM_apply_patches e x w = (Inr (), w1) \<Longrightarrow>
              map fst (patch_args (new_events w w1)) = declared_patches e (store w) (PkgLLVM x)"
        by (simp add: LLVM_apply_patches_Inr comp_def)
      from two_phase [OF emits_apply_patches(1) emits_compile(1) this rw] rw ok PkgLLVM
      show ?thesis by (simp add: LLVM_build_def)
    qed
  next
    case (PkgLLVMBinDist x)
    then show ?thesis by (simp add: LLVMBinDist_build_def ret_def)
  next
    case (PkgLibUnwind x)
    obtain r w' where rw: "seq (LibUnwind_apply_patches e x) (LibUnwind_compile e x) w = (r, w')"
      by (cases "seq (LibUnwind_apply_patches e x) (LibUnwind_compile e x) w")
    have "\<And>w1. LibUnwind_apply_patches e x w = (Inr (), w1) \<Longrightarrow>
            map fst (patch_args (new_events w w1)) = declared_patches e (store w) (PkgLibUnwind x)"
      by (simp add: LibUnwind_apply_patches_Inr comp_def)
    from two_phase [OF emits_apply_patches(2) emits_compile(2) this rw] rw PkgLibUnwind
    show ?thesis by (simp add: LibUnwind_build_def)
  next
    case (PkgGperftools x)
    obtain r w' where rw: "seq (Gperftools_apply_patches e x) (Gperftools_compile e x) w = (r, w')"
      by (cases "seq (Gperftools_apply_patches e x) (Gperftools_compile e x) w")
    have "\<And>w1. Gperftools_apply_patches e x w = (Inr (), w1) \<Longrightarrow>
            map fst (patch_args (new_events w w1)) = declared_patches e (store w) (PkgGperftools x)"
      by (simp add: Gperftools_apply_patches_Inr comp_def)
    from two_phase [OF emits_apply_patches(3) emits_compile(3) this rw] rw PkgGperftools
    show ?thesis by (simp add: Gperftools_build_def)
  qed
  from build_part fetch_part show ?thesis by blast
qed

theorem C4_patches_before_compile_witness:
  "fst (build env_preinstalled (PkgLibUnwind libunwind_14) world_libunwind) = Inr ()
   \<and> map fst (patch_args (takeWhile is_patch
        (new_events world_libunwind
           (snd (build env_preinstalled (PkgLibUnwind libunwind_14) world_libunwind)))))
      = [''/infra/packages/fix.patch'', ''/abs/x.patch'']
   \<and> list_all is_run (dropWhile is_patch
        (new_events world_libunwind
           (snd (build env_preinstalled (PkgLibUnwind libunwind_14) world_libunwind))))"
  using C4_patches_before_compile [of world_libunwind env_preinstalled "PkgLibUnwind libunwind_14"] lu_build_ok
  by (simp add: libunwind_14_def LibUnwind_init_def patch_path_def env_preinstalled_def)

text \<open>
  C5: run \<open>build\<close> in two environments that differ only in the boolean \<open>apply_patch\<close>
  returns (freshly applied or already applied, with the same resulting tree). Both
  builds end the same way (the same success or the same exception) and in worlds that
  agree on the file system, the working directory, the build context and the history of
  external calls: they can differ in the log alone.
\<close>

theorem C5_patch_result_only_logged:
  "same_but_patch_result e1 e2 \<Longrightarrow>
     fst (build e1 p w) = fst (build e2 p w)
     \<and> same_but_logs (snd (build e1 p w)) (snd (build e2 p w))"
  using simD [OF sim_build, of e1 e2 w w p] by simp

theorem C5_patch_result_only_logged_witness:
  "same_but_patch_result env_preinstalled env_already
   \<and> fst (build env_preinstalled (PkgLibUnwind libunwind_14) world_libunwind) = Inr ()
   \<and> fst (build env_already (PkgLibUnwind libunwind_14) world_libunwind) = Inr ()
   \<and> same_but_logs (snd (build env_preinstalled (PkgLibUnwind libunwind_14) world_libunwind))
       (snd (build env_already (PkgLibUnwind libunwind_14) world_libunwind))"
proof -
  have s: "same_but_patch_result env_preinstalled env_already"
    by (simp add: same_but_patch_result_def env_already_def env_preinstalled_def)
  from C5_patch_result_only_logged [OF s, of "PkgLibUnwind libunwind_14" world_libunwind] s lu_build_ok
  show ?thesis by simp
qed

text \<open>
  C6: in a build that succeeds, the paths handed to \<open>apply_patch\<close> (all at strip level
  1) are, reference by reference: the reference itself when it contains a slash;
  otherwise \<open>\<langle>module directory\<rangle>/\<langle>name\<rangle>.patch\<close> for \<open>LibUnwind\<close> and
  \<open>Gperftools\<close>, and \<open>\<langle>module directory\<rangle>/\<langle>name\<rangle>-\<langle>version\<rangle>.patch\<close> for \<open>LLVM\<close>,
  where the module directory is that of the package's own module.
\<close>

theorem C6_patch_reference_resolution:
  "(LibUnwind_build e u w = (Inr (), w') \<longrightarrow>
      patch_args (new_events w w') =
        map (\<lambda>p. (if CHR ''/'' \<in> set p then p
                   else packages_module_dir e @ ''/'' @ p @ ''.patch'', 1))
          (LibUnwind.patches u))
   \<and> (Gperftools_build e g w = (Inr (), w') \<longrightarrow>
        patch_args (new_events w w') =
          map (\<lambda>p. (if CHR ''/'' \<in> set p then p
                     else packages_module_dir e @ ''/'' @ p @ ''.patch'', 1))
            (Gperftools.patches g))
   \<and> (LLVM_build e x w = (Inr (), w') \<longrightarrow>
        patch_args (new_events w w') =
          map (\<lambda>p. (if CHR ''/'' \<in> set (patch_file p) then patch_file p
                     else llvm_module_dir e @ ''/'' @ patch_file p @ ''-'' @ LLVM.version x
                          @ ''.patch'', 1))
            (store w (LLVM.patches x)))"
proof (intro conjI impI)
  assume "LibUnwind_build e u w = (Inr (), w')"
  then have "seq (LibUnwind_apply_patches e u) (LibUnwind_compile e u) w = (Inr (), w')"
    by (simp add: LibUnwind_build_def)
  from two_phase_success [OF emits_compile(2) LibUnwind_apply_patches_Inr emits_apply_patches(2) this]
  show "patch_args (new_events w w') =
        map (\<lambda>p. (if CHR ''/'' \<in> set p then p
                   else packages_module_dir e @ ''/'' @ p @ ''.patch'', 1))
          (LibUnwind.patches u)"
    by (simp add: patch_path_def cong: map_cong)
next
  assume "Gperftools_build e g w = (Inr (), w')"
  then have "seq (Gperftools_apply_patches e g) (Gperftools_compile e g) w = (Inr (), w')"
    by (simp add: Gperftools_build_def)
  from two_phase_success [OF emits_compile(3) Gperftools_apply_patches_Inr emits_apply_patches(3) this]
  show "patch_args (new_events w w') =
          map (\<lambda>p. (if CHR ''/'' \<in> set p then p
                     else packages_module_dir e @ ''/'' @ p @ ''.patch'', 1))
            (Gperftools.patches g)"
    by (simp add: patch_path_def cong: map_cong)
next
  assume b: "LLVM_build e x w = (Inr (), w')"
  show "patch_args (new_events w w') =
          map (\<lambda>p. (if CHR ''/'' \<in> set (patch_file p) then patch_file p
                     else llvm_module_dir e @ ''/'' @ patch_file p @ ''-'' @ LLVM.version x
                          @ ''.patch'', 1))
            (store w (LLVM.patches x))"
  proof (cases rule: LLVM_major_version_cases [of x])
    case bad
    with b show ?thesis by (simp add: LLVM_build_def bind_def raise_def)
  next
    case (ok mv)
    with b have "seq (LLVM_apply_patches e x) (LLVM_compile e x mv) w = (Inr (), w')"
      by (simp add: LLVM_build_def)
    from two_phase_success [OF emits_compile(1) LLVM_apply_patches_Inr emits_apply_patches(1) this]
    show ?thesis by (simp add: LLVM_patch_path_def cong: map_cong)
  qed
qed

theorem C6_patch_reference_resolution_witness:
  "LibUnwind_build env_preinstalled libunwind_14 world_libunwind
     = (Inr (), snd (LibUnwind_build env_preinstalled libunwind_14 world_libunwind))
   \<and> patch_args (new_events world_libunwind
        (snd (LibUnwind_build env_preinstalled libunwind_14 world_libunwind)))
      = [(''/infra/packages/fix.patch'', 1), (''/abs/x.patch'', 1)]
   \<and> Gperftools_build env_preinstalled gperftools_29 world_gperftools
     = (Inr (), snd (Gperftools_build env_preinstalled gperftools_29 world_gperftools))
   \<and> patch_args (new_events world_gperftools
        (snd (Gperftools_build env_preinstalled gperftools_29 world_gperftools)))
      = [(''/infra/packages/fix.patch'', 1)]
   \<and> LLVM_build env_preinstalled llvm7_patched world_llvm_src
     = (Inr (), snd (LLVM_build env_preinstalled llvm7_patched world_llvm_src))
   \<and> patch_args (new_events world_llvm_src
        (snd (LLVM_build env_preinstalled llvm7_patched world_llvm_src)))
      = [(''/infra/packages/llvm/gold-plugins-7.0.0.patch'', 1),
         (''patches/LLVM-uniqueptr-fix.patch'', 1)]"
proof -
  have 1: "LibUnwind_build env_preinstalled libunwind_14 world_libunwind
     = (Inr (), snd (LibUnwind_build env_preinstalled libunwind_14 world_libunwind))"
    using lu_build_ok by (simp add: prod_eq_iff)
  have 2: "Gperftools_build env_preinstalled gperftools_29 world_gperftools
     = (Inr (), snd (Gperftools_build env_preinstalled gperftools_29 world_gperftools))"
    using gperftools_build_ok by (simp add: prod_eq_iff)
  have 3: "LLVM_build env_preinstalled llvm7_patched world_llvm_src
     = (Inr (), snd (LLVM_build env_preinstalled llvm7_patched world_llvm_src))"
    using llvm_build_ok by (simp add: prod_eq_iff)
  from C6_patch_reference_resolution [of env_preinstalled libunwind_14 world_libunwind
      "snd (LibUnwind_build env_preinstalled libunwind_14 world_libunwind)"] 1
  have a: "patch_args (new_events world_libunwind
        (snd (LibUnwind_build env_preinstalled libunwind_14 world_libunwind)))
      = [(''/infra/packages/fix.patch'', 1), (''/abs/x.patch'', 1)]"
    by (simp add: libunwind_14_def LibUnwind_init_def env_preinstalled_def)
  from C6_patch_reference_resolution [of env_preinstalled _ world_gperftools
      "snd (Gperftools_build env_preinstalled gperftools_29 world_gperftools)" gperftools_29] 2
  have b: "patch_args (new_events world_gperftools
        (snd (Gperftools_build env_preinstalled gperftools_29 world_gperftools)))
      = [(''/infra/packages/fix.patch'', 1)]"
    by (simp add: gperftools_29_def Gperftools_init_def env_preinstalled_def)
  from C6_patch_reference_resolution [of env_preinstalled _ world_llvm_src
      "snd (LLVM_build env_preinstalled llvm7_patched world_llvm_src)" _ llvm7_patched] 3
  have c: "patch_args (new_events world_llvm_src
        (snd (LLVM_build env_preinstalled llvm7_patched world_llvm_src)))
      = [(''/infra/packages/llvm/gold-plugins-7.0.0.patch'', 1),
         (''patches/LLVM-uniqueptr-fix.patch'', 1)]"
    by (simp add: llvm7_patched_def LLVM_init_def env_preinstalled_def world_llvm_src_def
        store_patched_def)
  from 1 2 3 a b c show ?thesis by blast
qed

text \<open>
  C7: let the working directory at the start be the package directory \<open>cwd w\<close>. In
  \<open>LLVM.build\<close> a patch given as a tuple \<open>(d, q)\<close> is applied in directory \<open>d\<close>
  resolved from \<open>src\<close>, a plain reference is applied in \<open>src\<close>; once the whole patch
  list is processed the working directory is the package directory again; and the
  compile steps that follow all run in \<open>obj\<close> below the package directory, whatever
  the overrides were.
\<close>

theorem C7_override_restores_cwd:
  "wf_path (cwd w) \<Longrightarrow>
   (LLVM_apply_patches e x w = (Inr (), w1) \<longrightarrow>
      cwd w1 = cwd w
      \<and> patch_cwds (new_events w w1)
          = map (\<lambda>p. case p of Name q \<Rightarrow> cwd w @ [''src'']
                      | InDir d q \<Rightarrow> resolve (cwd w @ [''src'']) d)
              (store w (LLVM.patches x)))
   \<and> (LLVM_build e x w = (Inr (), w') \<longrightarrow>
        patch_cwds (new_events w w')
          = map (\<lambda>p. case p of Name q \<Rightarrow> cwd w @ [''src'']
                      | InDir d q \<Rightarrow> resolve (cwd w @ [''src'']) d)
              (store w (LLVM.patches x))
        \<and> run_cwds (new_events w w') = [cwd w @ [''obj''], cwd w @ [''obj'']]
        \<and> cwd w' = cwd w @ [''obj''])"
proof (intro conjI impI)
  assume wf: "wf_path (cwd w)" and a: "LLVM_apply_patches e x w = (Inr (), w1)"
  from LLVM_apply_patches_cwd [OF wf a]
  show "cwd w1 = cwd w" and "patch_cwds (new_events w w1)
          = map (\<lambda>p. case p of Name q \<Rightarrow> cwd w @ [''src'']
                      | InDir d q \<Rightarrow> resolve (cwd w @ [''src'']) d)
              (store w (LLVM.patches x))" by simp_all
next
  assume wf: "wf_path (cwd w)" and b: "LLVM_build e x w = (Inr (), w')"
  have "patch_cwds (new_events w w')
          = map (\<lambda>p. case p of Name q \<Rightarrow> cwd w @ [''src'']
                      | InDir d q \<Rightarrow> resolve (cwd w @ [''src'']) d)
              (store w (LLVM.patches x))
        \<and> run_cwds (new_events w w') = [cwd w @ [''obj''], cwd w @ [''obj'']]
        \<and> cwd w' = cwd w @ [''obj'']"
  proof (cases rule: LLVM_major_version_cases [of x])
    case bad
    with b show ?thesis by (simp add: LLVM_build_def bind_def raise_def)
  next
    case (ok mv)
    with b have "seq (LLVM_apply_patches e x) (LLVM_compile e x mv) w = (Inr (), w')"
      by (simp add: LLVM_build_def)
    then obtain v where a: "LLVM_apply_patches e x w = (Inr (), v)"
      and c: "LLVM_compile e x mv v = (Inr (), w')"
      by (cases rule: seq_cases) auto
    from emits_apply_patches(1) a obtain es1
      where es1: "trace v = trace w @ es1" "list_all is_patch es1" by (rule emitsD)
    from emits_compile(1) c obtain es2
      where es2: "trace w' = trace v @ es2" "list_all is_run es2" by (rule emitsD)
    from es1 es2 have n: "new_events w w' = es1 @ es2" by simp
    from LLVM_apply_patches_cwd [OF wf a] LLVM_compile_cwd [OF c] es1 es2 n
    show ?thesis
      by (simp add: patch_cwds_append run_cwds_append patch_cwds_runs run_cwds_patches)
  qed
  then show "patch_cwds (new_events w w')
          = map (\<lambda>p. case p of Name q \<Rightarrow> cwd w @ [''src'']
                      | InDir d q \<Rightarrow> resolve (cwd w @ [''src'']) d)
              (store w (LLVM.patches x))"
    and "run_cwds (new_events w w') = [cwd w @ [''obj''], cwd w @ [''obj'']]"
    and "cwd w' = cwd w @ [''obj'']" by simp_all
qed

theorem C7_override_restores_cwd_witness:
  "wf_path (cwd world_llvm_src)
   \<and> LLVM_apply_patches env_preinstalled llvm7_patched world_llvm_src
     = (Inr (), snd (LLVM_apply_patches env_preinstalled llvm7_patched world_llvm_src))
   \<and> cwd (snd (LLVM_apply_patches env_preinstalled llvm7_patched world_llvm_src))
      = [''build'', ''packages'', ''llvm-7.0.0'']
   \<and> LLVM_build env_preinstalled llvm7_patched world_llvm_src
     = (Inr (), snd (LLVM_build env_preinstalled llvm7_patched world_llvm_src))
   \<and> patch_cwds (new_events world_llvm_src
        (snd (LLVM_build env_preinstalled llvm7_patched world_llvm_src)))
      = [[''build'', ''packages'', ''llvm-7.0.0'', ''src''],
         [''build'', ''packages'', ''llvm-7.0.0'', ''src'', ''llvm'']]
   \<and> run_cwds (new_events world_llvm_src
        (snd (LLVM_build env_preinstalled llvm7_patched world_llvm_src)))
      = [[''build'', ''packages'', ''llvm-7.0.0'', ''obj''],
         [''build'', ''packages'', ''llvm-7.0.0'', ''obj'']]
   \<and> cwd (snd (LLVM_build env_preinstalled llvm7_patched world_llvm_src))
      = [''build'', ''packages'', ''llvm-7.0.0'', ''obj'']"
proof -
  have wf: "wf_path (cwd world_llvm_src)"
    by (simp add: wf_path_def wf_component_def world_llvm_src_def)
  have 3: "LLVM_build env_preinstalled llvm7_patched world_llvm_src
     = (Inr (), snd (LLVM_build env_preinstalled llvm7_patched world_llvm_src))"
    using llvm_build_ok by (simp add: prod_eq_iff)
  have 4: "LLVM_apply_patches env_preinstalled llvm7_patched world_llvm_src
     = (Inr (), snd (LLVM_apply_patches env_preinstalled llvm7_patched world_llvm_src))"
    using llvm_apply_patches_ok by (simp add: prod_eq_iff)
  from C7_override_restores_cwd [OF wf, of env_preinstalled llvm7_patched
      "snd (LLVM_apply_patches env_preinstalled llvm7_patched world_llvm_src)"] 4
  have 5: "cwd (snd (LLVM_apply_patches env_preinstalled llvm7_patched world_llvm_src))
      = [''build'', ''packages'', ''llvm-7.0.0'']"
    by (simp add: world_llvm_src_def)
  from C7_override_restores_cwd [OF wf, of env_preinstalled llvm7_patched _
      "snd (LLVM_build env_preinstalled llvm7_patched world_llvm_src)"] 3
  have "patch_cwds (new_events world_llvm_src
        (snd (LLVM_build env_preinstalled llvm7_patched world_llvm_src)))
      = [[''build'', ''packages'', ''llvm-7.0.0'', ''src''],
         [''build'', ''packages'', ''llvm-7.0.0'', ''src'', ''llvm'']]
   \<and> run_cwds (new_events world_llvm_src
        (snd (LLVM_build env_preinstalled llvm7_patched world_llvm_src)))
      = [[''build'', ''packages'', ''llvm-7.0.0'', ''obj''],
         [''build'', ''packages'', ''llvm-7.0.0'', ''obj'']]
   \<and> cwd (snd (LLVM_build env_preinstalled llvm7_patched world_llvm_src))
      = [''build'', ''packages'', ''llvm-7.0.0'', ''obj'']"
    by (simp add: llvm7_patched_def LLVM_init_def world_llvm_src_def store_patched_def
        resolve_def push_component_def)
  with wf 3 4 5 show ?thesis by blast
qed

section \<open>The probes\<close>

text \<open>
  C8: for an \<open>LLVM\<close> package with an empty patch list, \<open>is_installed\<close> runs
  \<open>llvm-config --version\<close> with errors allowed and returns true when it exits with
  status zero and its output, stripped of surrounding whitespace, equals the required
  version, whether or not \<open>install/bin/llvm-config\<close> exists. When the process cannot be
  run, exits non-zero or reports another version, and when patches are declared (no
  process is run then), the result is the existence of \<open>install/bin/llvm-config\<close>.
\<close>

theorem C8_llvm_preinstalled_probe:
  "(store w (LLVM.patches self) = []
      \<and> run_fx e (Shell ''llvm-config --version'') (cwd w) (files w) = (Some p, f)
      \<and> returncode p = 0 \<and> py_strip (stdout p) = LLVM.version self
    \<longrightarrow> fst (LLVM_is_installed e self w) = Inr True)
   \<and> (store w (LLVM.patches self) = []
        \<and> run_fx e (Shell ''llvm-config --version'') (cwd w) (files w) = (r, f)
        \<and> (case r of None \<Rightarrow> True
            | Some p \<Rightarrow> returncode p \<noteq> 0 \<or> py_strip (stdout p) \<noteq> LLVM.version self)
      \<longrightarrow> fst (LLVM_is_installed e self w)
            = Inr (path_exists f (cwd w) ''install/bin/llvm-config''))
   \<and> (store w (LLVM.patches self) \<noteq> []
      \<longrightarrow> fst (LLVM_is_installed e self w)
            = Inr (path_exists (files w) (cwd w) ''install/bin/llvm-config'')
          \<and> new_events w (snd (LLVM_is_installed e self w)) = [])
   \<and> (store w (LLVM.patches self) = []
      \<longrightarrow> new_events w (snd (LLVM_is_installed e self w))
            = [Run (Shell ''llvm-config --version'') (cwd w) True])"
  by (auto simp: LLVM_is_installed_result LLVM_is_installed_events split: option.splits)

theorem C8_llvm_preinstalled_probe_witness:
  "store world_llvm7 (LLVM.patches llvm_without_rt) = []
   \<and> \<not> path_exists (files world_llvm7) (cwd world_llvm7) ''install/bin/llvm-config''
   \<and> fst (LLVM_is_installed env_preinstalled llvm_without_rt world_llvm7) = Inr True
   \<and> store world_llvm7 (LLVM.patches (llvm_without_rt\<lparr>LLVM.version := ''8.0.0''\<rparr>)) = []
   \<and> fst (LLVM_is_installed env_preinstalled (llvm_without_rt\<lparr>LLVM.version := ''8.0.0''\<rparr>)
        world_llvm7) = Inr False
   \<and> store world_llvm4 (LLVM.patches llvm4_rt) \<noteq> []
   \<and> fst (LLVM_is_installed env_preinstalled llvm4_rt world_llvm4) = Inr True
   \<and> new_events world_llvm4 (snd (LLVM_is_installed env_preinstalled llvm4_rt world_llvm4)) = []
   \<and> new_events world_llvm7 (snd (LLVM_is_installed env_preinstalled llvm_without_rt world_llvm7))
        = [Run (Shell ''llvm-config --version'') [''build'', ''packages'', ''llvm-7.0.0''] True]"
  using C8_llvm_preinstalled_probe [of world_llvm7 llvm_without_rt env_preinstalled
        "\<lparr>returncode = 0, stdout = ''7.0.0'' @ [CHR 0x0A]\<rparr>" "[]"]
    C8_llvm_preinstalled_probe [of world_llvm7 "llvm_without_rt\<lparr>LLVM.version := ''8.0.0''\<rparr>" env_preinstalled
        "\<lparr>returncode = 0, stdout = ''7.0.0'' @ [CHR 0x0A]\<rparr>" "[]"
        "Some \<lparr>returncode = 0, stdout = ''7.0.0'' @ [CHR 0x0A]\<rparr>"]
    C8_llvm_preinstalled_probe [of world_llvm4 llvm4_rt env_preinstalled]
  by (simp add: world_llvm7_def world_llvm4_def llvm_without_rt_def llvm4_rt_def
      env_preinstalled_def LLVM_init_def empty_store_def default_patches_def
      py_strip_def py_isspace_def path_exists_def resolve_def push_component_def node_at_def)

text \<open>
  C9: for every package and every state, \<open>is_fetched\<close> and \<open>is_built\<close> leave the whole
  world unchanged, and \<open>is_installed\<close> leaves the build context and the working
  directory unchanged. \<open>is_installed\<close> writes no file itself: the only thing it does
  besides reading is to run \<open>llvm-config --version\<close> (for \<open>LLVM\<close>), so the file system
  is unchanged provided that this external process changes no file.
\<close>

theorem C9_probes_are_reads:
  "snd (is_fetched e p w) = w \<and> snd (is_built e p w) = w
   \<and> ctx (snd (is_installed e p w)) = ctx w
   \<and> cwd (snd (is_installed e p w)) = cwd w
   \<and> (snd (run_fx e (Shell ''llvm-config --version'') (cwd w) (files w)) = files w
        \<longrightarrow> files (snd (is_installed e p w)) = files w)"
  by (cases p)
    (simp_all add: LLVM_is_fetched_def LLVM_is_built_def LLVMBinDist_is_fetched_def
      LLVMBinDist_is_built_def LibUnwind_is_fetched_def LibUnwind_is_built_def
      Gperftools_is_fetched_def Gperftools_is_built_def LLVMBinDist_is_installed_def
      LibUnwind_is_installed_def Gperftools_is_installed_def ret_def LLVM_is_installed_frame)

theorem C9_probes_are_reads_witness:
  "snd (run_fx env_preinstalled (Shell ''llvm-config --version'') (cwd world_llvm7)
          (files world_llvm7)) = files world_llvm7
   \<and> snd (is_fetched env_preinstalled (PkgLLVM llvm_without_rt) world_llvm7) = world_llvm7
   \<and> snd (is_built env_preinstalled (PkgLLVM llvm_without_rt) world_llvm7) = world_llvm7
   \<and> ctx (snd (is_installed env_preinstalled (PkgLLVM llvm_without_rt) world_llvm7)) = ctx_O2
   \<and> files (snd (is_installed env_preinstalled (PkgLLVM llvm_without_rt) world_llvm7)) = []"
  using C9_probes_are_reads [of env_preinstalled "PkgLLVM llvm_without_rt" world_llvm7]
  by (simp add: world_llvm7_def env_preinstalled_def)

section \<open>The shared default patch list\<close>

text \<open>
  C10: constructing an \<open>LLVM\<close> package of version 4.0.0 with \<open>compiler_rt\<close> set and no
  \<open>patches\<close> argument appends \<open>compiler-rt-typefix\<close> to the one default list object.
  After two such constructions both instances hold that same list, which has gained the
  entry twice (starting from a fresh default it is exactly the entry twice); and when the
  caller passes a list of its own, the entry is appended to the caller's list.
\<close>

theorem C10_default_patch_list_is_shared:
  "(case LLVM_init h ''4.0.0'' True c1 l1 None f1 of (a, h1) \<Rightarrow>
      (case LLVM_init h1 ''4.0.0'' True c2 l2 None f2 of (b, h2) \<Rightarrow>
         LLVM.patches a = default_patches \<and> LLVM.patches b = default_patches
         \<and> h2 (LLVM.patches a)
             = h default_patches @ [Name ''compiler-rt-typefix'', Name ''compiler-rt-typefix'']
         \<and> h2 (LLVM.patches b)
             = h default_patches @ [Name ''compiler-rt-typefix'', Name ''compiler-rt-typefix'']
         \<and> count_list (h2 (LLVM.patches a)) (Name ''compiler-rt-typefix'')
             = count_list (h default_patches) (Name ''compiler-rt-typefix'') + 2))
   \<and> (case LLVM_init empty_store ''4.0.0'' True c1 l1 None f1 of (a, h1) \<Rightarrow>
        (case LLVM_init h1 ''4.0.0'' True c2 l2 None f2 of (b, h2) \<Rightarrow>
           h2 (LLVM.patches a) = [Name ''compiler-rt-typefix'', Name ''compiler-rt-typefix'']
           \<and> h2 (LLVM.patches b) = [Name ''compiler-rt-typefix'', Name ''compiler-rt-typefix'']))
   \<and> (case LLVM_init h ''4.0.0'' True c3 l3 (Some r) f3 of (d, h3) \<Rightarrow>
         LLVM.patches d = r \<and> h3 r = h r @ [Name ''compiler-rt-typefix''])"
  by (simp add: LLVM_init_def Let_def empty_store_def)

end
